theory Spec2Isabelle
  imports Complex_Main
begin

section \<open>Numbers, vectors and matrices\<close>

text \<open>
  The add-on computes with Python floats and with the host's \<^verbatim>\<open>Vector\<close> and
  \<^verbatim>\<open>Matrix\<close> values. A float is modelled as a finite real, one of the two
  infinities, or not-a-number: the reducer \<^verbatim>\<open>get_bounding_box\<close> starts from
  \<^verbatim>\<open>float("inf")\<close> and \<^verbatim>\<open>float("-inf")\<close>, so the infinities and what
  arithmetic does with them are part of the program. Finite arithmetic is exact here:
  rounding, overflow to infinity and the sign of zero are not modelled.
\<close>

datatype pyfloat = Fin real | PInf | NInf | NaN

text \<open>\<^verbatim>\<open>a < b\<close> on floats: every comparison with not-a-number is false.\<close>

fun flt :: "pyfloat \<Rightarrow> pyfloat \<Rightarrow> bool" where
  "flt (Fin a) (Fin b) = (a < b)"
| "flt (Fin a) PInf = True"
| "flt NInf (Fin b) = True"
| "flt NInf PInf = True"
| "flt _ _ = False"

fun fadd :: "pyfloat \<Rightarrow> pyfloat \<Rightarrow> pyfloat" where
  "fadd NaN _ = NaN"
| "fadd _ NaN = NaN"
| "fadd (Fin a) (Fin b) = Fin (a + b)"
| "fadd PInf NInf = NaN"
| "fadd NInf PInf = NaN"
| "fadd PInf _ = PInf"
| "fadd _ PInf = PInf"
| "fadd NInf _ = NInf"
| "fadd _ NInf = NInf"

fun fneg :: "pyfloat \<Rightarrow> pyfloat" where
  "fneg (Fin a) = Fin (- a)"
| "fneg PInf = NInf"
| "fneg NInf = PInf"
| "fneg NaN = NaN"

definition fsub :: "pyfloat \<Rightarrow> pyfloat \<Rightarrow> pyfloat" where
  "fsub a b = fadd a (fneg b)"

fun fmul :: "pyfloat \<Rightarrow> pyfloat \<Rightarrow> pyfloat" where
  "fmul NaN _ = NaN"
| "fmul _ NaN = NaN"
| "fmul (Fin a) (Fin b) = Fin (a * b)"
| "fmul (Fin a) PInf = (if a = 0 then NaN else if 0 < a then PInf else NInf)"
| "fmul (Fin a) NInf = (if a = 0 then NaN else if 0 < a then NInf else PInf)"
| "fmul PInf (Fin b) = (if b = 0 then NaN else if 0 < b then PInf else NInf)"
| "fmul NInf (Fin b) = (if b = 0 then NaN else if 0 < b then NInf else PInf)"
| "fmul PInf PInf = PInf"
| "fmul PInf NInf = NInf"
| "fmul NInf PInf = NInf"
| "fmul NInf NInf = PInf"

text \<open>Division of a float by a positive integer (\<^verbatim>\<open>x / 2\<close>, \<^verbatim>\<open>x / len(objs)\<close>).\<close>

fun fdivn :: "pyfloat \<Rightarrow> nat \<Rightarrow> pyfloat" where
  "fdivn (Fin a) k = Fin (a / real k)"
| "fdivn PInf k = PInf"
| "fdivn NInf k = NInf"
| "fdivn NaN k = NaN"

text \<open>
  Python's two-argument \<^verbatim>\<open>min(a, b)\<close> and \<^verbatim>\<open>max(a, b)\<close>: the first argument is
  kept unless the second is strictly smaller (larger).
\<close>

definition py_min :: "pyfloat \<Rightarrow> pyfloat \<Rightarrow> pyfloat" where
  "py_min a b = (if flt b a then b else a)"

definition py_max :: "pyfloat \<Rightarrow> pyfloat \<Rightarrow> pyfloat" where
  "py_max a b = (if flt a b then b else a)"

datatype py_error = ZeroDivisionError | AttributeError

datatype vector = Vector (vx: pyfloat) (vy: pyfloat) (vz: pyfloat)

text \<open>\<^verbatim>\<open>Vector()\<close>: the zero vector.\<close>

definition Vector0 :: vector where
  "Vector0 = Vector (Fin 0) (Fin 0) (Fin 0)"

definition vadd :: "vector \<Rightarrow> vector \<Rightarrow> vector" where
  "vadd a b = Vector (fadd (vx a) (vx b)) (fadd (vy a) (vy b)) (fadd (vz a) (vz b))"

definition vsub :: "vector \<Rightarrow> vector \<Rightarrow> vector" where
  "vsub a b = Vector (fsub (vx a) (vx b)) (fsub (vy a) (vy b)) (fsub (vz a) (vz b))"

definition vdivn :: "vector \<Rightarrow> nat \<Rightarrow> vector" where
  "vdivn a k = Vector (fdivn (vx a) k) (fdivn (vy a) k) (fdivn (vz a) k)"

text \<open>\<^verbatim>\<open>vector / n\<close> for an integer \<^verbatim>\<open>n\<close>: the host raises on a zero divisor.\<close>

definition Vector_div :: "vector \<Rightarrow> nat \<Rightarrow> py_error + vector" where
  "Vector_div a k = (if k = 0 then Inl ZeroDivisionError else Inr (vdivn a k))"

datatype row4 = Row4 pyfloat pyfloat pyfloat pyfloat

datatype matrix = Matrix row4 row4 row4 row4

definition identity_matrix :: matrix where
  "identity_matrix =
     Matrix (Row4 (Fin 1) (Fin 0) (Fin 0) (Fin 0)) (Row4 (Fin 0) (Fin 1) (Fin 0) (Fin 0))
            (Row4 (Fin 0) (Fin 0) (Fin 1) (Fin 0)) (Row4 (Fin 0) (Fin 0) (Fin 0) (Fin 1))"

text \<open>\<^verbatim>\<open>matrix.translation\<close>: the first three entries of the last column.\<close>

fun translation :: "matrix \<Rightarrow> vector" where
  "translation (Matrix (Row4 a0 a1 a2 a3) (Row4 b0 b1 b2 b3) (Row4 c0 c1 c2 c3) r3) =
     Vector a3 b3 c3"

text \<open>
  \<^verbatim>\<open>matrix @ vector\<close> for a 4x4 matrix and a 3D vector: the vector is extended by 1,
  each row is summed from 0.0 left to right, and the first three rows are returned.
\<close>

fun row_dot :: "row4 \<Rightarrow> vector \<Rightarrow> pyfloat" where
  "row_dot (Row4 a b c d) v =
     fadd (fadd (fadd (fadd (Fin 0) (fmul a (vx v))) (fmul b (vy v))) (fmul c (vz v)))
          (fmul d (Fin 1))"

fun matmul_vec :: "matrix \<Rightarrow> vector \<Rightarrow> vector" where
  "matmul_vec (Matrix r0 r1 r2 r3) v = Vector (row_dot r0 v) (row_dot r1 v) (row_dot r2 v)"

text \<open>
  \<^verbatim>\<open>apply_location_to_matrix\<close> (source lines 75-78) overwrites the entries
  \<^verbatim>\<open>[0][3]\<close>, \<^verbatim>\<open>[1][3]\<close>, \<^verbatim>\<open>[2][3]\<close> of the matrix in place.
\<close>

fun apply_location_to_matrix :: "vector \<Rightarrow> matrix \<Rightarrow> matrix" where
  "apply_location_to_matrix location
       (Matrix (Row4 a0 a1 a2 a3) (Row4 b0 b1 b2 b3) (Row4 c0 c1 c2 c3) r3) =
     Matrix (Row4 a0 a1 a2 (vx location)) (Row4 b0 b1 b2 (vy location))
            (Row4 c0 c1 c2 (vz location)) r3"

section \<open>The scene graph of the host\<close>

text \<open>
  Objects, parent links, selection and world matrices belong to the host application.
  An object is a handle; the scene holds, per handle, the attributes the add-on reads and
  writes. \<^verbatim>\<open>obj.type == "MESH"\<close> holds exactly when the object's data is a mesh, and
  only a mesh has \<^verbatim>\<open>data.vertices\<close> (each vertex given by its coordinate \<^verbatim>\<open>co\<close>).
  The operations of the host are not part of the repository: each is given below by its
  effect on these attributes. All objects of the scene are taken to be in the view layer
  the operators work on.
\<close>

type_synonym handle = nat

datatype object_data = Mesh (vertices: "vector list") | NoMesh

record scene =
  data_objects :: "handle list"
  obj_parent :: "handle \<Rightarrow> handle option"
  obj_matrix_world :: "handle \<Rightarrow> matrix"
  obj_data :: "handle \<Rightarrow> object_data"
  obj_select :: "handle \<Rightarrow> bool"
  active_object :: "handle option"
  obj_empty_display_type :: "handle \<Rightarrow> string"
  obj_show_name :: "handle \<Rightarrow> bool"
  obj_show_axis :: "handle \<Rightarrow> bool"
  obj_show_in_front :: "handle \<Rightarrow> bool"

text \<open>\<^verbatim>\<open>obj.type == "MESH"\<close>.\<close>

definition is_mesh :: "scene \<Rightarrow> handle \<Rightarrow> bool" where
  "is_mesh s obj = (case obj_data s obj of Mesh vs \<Rightarrow> True | NoMesh \<Rightarrow> False)"

text \<open>\<^verbatim>\<open>context.selected_objects\<close>: the objects of the scene whose selection flag is set.\<close>

definition selected_objects :: "scene \<Rightarrow> handle list" where
  "selected_objects s = filter (obj_select s) (data_objects s)"

text \<open>
  The chain of parents above an object, nearest first. The walk is bounded by the number
  of steps given; in a scene without parent cycles the number of objects is enough
  (lemma \<open>ancestors_complete\<close>).
\<close>

fun ancestors :: "nat \<Rightarrow> (handle \<Rightarrow> handle option) \<Rightarrow> handle \<Rightarrow> handle list" where
  "ancestors 0 par c = []"
| "ancestors (Suc n) par c =
     (case par c of None \<Rightarrow> [] | Some q \<Rightarrow> q # ancestors n par q)"

text \<open>
  Modelled from the spec: the host property \<^verbatim>\<open>children_recursive\<close> is not part of the
  repository. The spec's glossary defines the recursive descendants of a node as all nodes
  reachable by following parent-to-child links transitively: the objects of the scene
  that have the node among their ancestors.
\<close>

definition children_recursive :: "scene \<Rightarrow> handle \<Rightarrow> handle list" where
  "children_recursive s p =
     filter (\<lambda>c. p \<in> set (ancestors (length (data_objects s)) (obj_parent s) c))
       (data_objects s)"

text \<open>
  Modelled from the spec: the host's assignment \<^verbatim>\<open>ob.parent = par\<close> is not part of
  the repository. The spec (section 4.1) has the host guarantee an acyclic graph: a parent
  that is the object itself or has the object among its ancestors is refused, and the
  link is cleared instead. The world matrix stored in the object is not touched by the
  assignment; the add-on writes it back itself (lines 142-144 and 147-149).
\<close>

definition parent_loop_check :: "scene \<Rightarrow> handle \<Rightarrow> handle \<Rightarrow> bool" where
  "parent_loop_check s par ob =
     (ob = par \<or> ob \<in> set (ancestors (length (data_objects s)) (obj_parent s) par))"

definition set_parent :: "handle \<Rightarrow> handle option \<Rightarrow> scene \<Rightarrow> scene" where
  "set_parent ob par s =
     s\<lparr>obj_parent := (obj_parent s)
          (ob := (case par of None \<Rightarrow> None
                  | Some p \<Rightarrow> if parent_loop_check s p ob then None else Some p))\<rparr>"

text \<open>\<^verbatim>\<open>ob.matrix_world = m\<close>.\<close>

definition set_matrix_world :: "handle \<Rightarrow> matrix \<Rightarrow> scene \<Rightarrow> scene" where
  "set_matrix_world ob m s = s\<lparr>obj_matrix_world := (obj_matrix_world s)(ob := m)\<rparr>"

text \<open>
  \<^verbatim>\<open>ob.location\<close> of an object without parent: the host keeps it equal to the
  translation of the world matrix last written.
\<close>

definition obj_location :: "scene \<Rightarrow> handle \<Rightarrow> vector" where
  "obj_location s ob = translation (obj_matrix_world s ob)"

text \<open>
  \<^verbatim>\<open>bpy.data.objects.new("Empty", None)\<close> followed by linking into the scene: a
  new handle for an object without data, without parent, unselected, at the identity.
\<close>

definition objects_new :: "handle \<Rightarrow> scene \<Rightarrow> scene" where
  "objects_new e s =
     s\<lparr>data_objects := data_objects s @ [e],
       obj_parent := (obj_parent s)(e := None),
       obj_matrix_world := (obj_matrix_world s)(e := identity_matrix),
       obj_data := (obj_data s)(e := NoMesh),
       obj_select := (obj_select s)(e := False)\<rparr>"

text \<open>
  \<^verbatim>\<open>bpy.data.objects.remove(obj)\<close>: the object leaves the scene, and the host clears
  the parent links that pointed to it.
\<close>

definition objects_remove :: "handle \<Rightarrow> scene \<Rightarrow> scene" where
  "objects_remove h s =
     s\<lparr>data_objects := removeAll h (data_objects s),
       obj_parent := (\<lambda>c. if c = h \<or> obj_parent s c = Some h then None else obj_parent s c),
       obj_select := (obj_select s)(h := False)\<rparr>"

definition select_set :: "handle \<Rightarrow> bool \<Rightarrow> scene \<Rightarrow> scene" where
  "select_set ob v s = s\<lparr>obj_select := (obj_select s)(ob := v)\<rparr>"

text \<open>\<^verbatim>\<open>ops.object.select_all(action="DESELECT")\<close>.\<close>

definition select_all_DESELECT :: "scene \<Rightarrow> scene" where
  "select_all_DESELECT s = s\<lparr>obj_select := (\<lambda>ob. False)\<rparr>"

subsection \<open>The parent-to-child relation\<close>

definition child_rel :: "scene \<Rightarrow> (handle \<times> handle) set" where
  "child_rel s = {(p, c). obj_parent s c = Some p}"

text \<open>All transitive descendants of a node: the transitive closure of the relation.\<close>

definition descendants :: "scene \<Rightarrow> handle \<Rightarrow> handle set" where
  "descendants s p = {c. (p, c) \<in> (child_rel s)\<^sup>+}"

text \<open>
  What the host guarantees of its graph: parent links connect objects of the scene, and
  no object is its own ancestor.
\<close>

definition wf_scene :: "scene \<Rightarrow> bool" where
  "wf_scene s =
     ((\<forall>c p. obj_parent s c = Some p \<longrightarrow>
         c \<in> set (data_objects s) \<and> p \<in> set (data_objects s)) \<and>
      acyclic (child_rel s))"

section \<open>The operators\<close>

datatype operator = DeleteRecursive | ParentToEmpty | SelectDescendants

text \<open>
  \<^verbatim>\<open>poll\<close>: \<^verbatim>\<open>ParentToEmpty\<close> (lines 101-103) and \<^verbatim>\<open>SelectDescendants\<close>
  (lines 182-184) define it; \<^verbatim>\<open>DeleteRecursive\<close> (lines 30-48) defines none, and the
  host offers an operator without \<^verbatim>\<open>poll\<close> in every context.
\<close>

fun poll :: "operator \<Rightarrow> scene \<Rightarrow> bool" where
  "poll ParentToEmpty s = (length (selected_objects s) \<noteq> 0)"
| "poll SelectDescendants s = (length (selected_objects s) \<noteq> 0)"
| "poll DeleteRecursive s = True"

subsection \<open>DeleteRecursive\<close>

text \<open>
  A Python \<^verbatim>\<open>set\<close> of objects is a list without repetition; \<^verbatim>\<open>objs.add(x)\<close> leaves
  the set as it is when \<^verbatim>\<open>x\<close> is a member. The list keeps the order of insertion;
  Python iterates a set in an order of its own, on which the removal of lines 42-43 does
  not depend (lemma \<open>data_objects_fold_remove\<close>).
\<close>

definition set_add :: "handle \<Rightarrow> handle list \<Rightarrow> handle list" where
  "set_add x objs = (if x \<in> set objs then objs else objs @ [x])"

text \<open>Lines 36-40: the collector, for the roots it is given.\<close>

definition collect_recursive :: "scene \<Rightarrow> handle list \<Rightarrow> handle list" where
  "collect_recursive s roots =
     fold (\<lambda>parent objs. fold set_add (children_recursive s parent) (set_add parent objs))
       roots []"

text \<open>Lines 35-45.\<close>

definition DeleteRecursive_execute :: "scene \<Rightarrow> scene" where
  "DeleteRecursive_execute s =
     fold objects_remove (collect_recursive s (selected_objects s)) s"

subsection \<open>SelectDescendants\<close>

text \<open>Lines 186-190: the selection is read once; the flags are set object by object.\<close>

definition SelectDescendants_execute :: "scene \<Rightarrow> scene" where
  "SelectDescendants_execute s =
     fold (\<lambda>obj s1. fold (\<lambda>obj s2. select_set obj True s2) (children_recursive s1 obj) s1)
       (selected_objects s) s"

subsection \<open>The bounding-box reducer\<close>

text \<open>Lines 64-70: one vertex, already in world space, against the running box.\<close>

definition bb_update :: "vector \<Rightarrow> vector \<times> vector \<Rightarrow> vector \<times> vector" where
  "bb_update world_pos acc =
     (case acc of (min_point, max_point) \<Rightarrow>
        (Vector (py_min (vx min_point) (vx world_pos))
                (py_min (vy min_point) (vy world_pos))
                (py_min (vz min_point) (vz world_pos)),
         Vector (py_max (vx max_point) (vx world_pos))
                (py_max (vy max_point) (vy world_pos))
                (py_max (vz max_point) (vz world_pos))))"

text \<open>
  Lines 59-72. An object without mesh data has no \<^verbatim>\<open>data.vertices\<close>: the attribute
  access raises. The loops change nothing but the two local vectors, so the error is
  tested in front of them.
\<close>

definition get_bounding_box :: "scene \<Rightarrow> handle list \<Rightarrow> py_error + (vector \<times> vector)" where
  "get_bounding_box s objs =
     (if list_ex (\<lambda>obj. obj_data s obj = NoMesh) objs then Inl AttributeError
      else
        (case fold (\<lambda>obj. fold (\<lambda>vertex. bb_update (matmul_vec (obj_matrix_world s obj) vertex))
                      (vertices (obj_data s obj)))
                objs (Vector PInf PInf PInf, Vector NInf NInf NInf) of
           (min_point, max_point) \<Rightarrow>
             Inr (vdivn (vadd min_point max_point) 2, vsub max_point min_point)))"

subsection \<open>ParentToEmpty\<close>

datatype placement = TOP | CENTER | BOTTOM

record ParentToEmpty_props =
  self_location :: placement
  self_show_name :: bool
  self_show_axis :: bool
  self_show_in_front :: bool

text \<open>Lines 111-113: the sum of the translations, from \<^verbatim>\<open>Vector()\<close>, over the count.\<close>

definition mean_location :: "scene \<Rightarrow> handle list \<Rightarrow> py_error + vector" where
  "mean_location s objs =
     Vector_div (fold (\<lambda>obj acc. vadd acc (translation (obj_matrix_world s obj))) objs Vector0)
       (length objs)"

text \<open>
  \<^verbatim>\<open>apply_location_to_matrix(location, empty.matrix_world)\<close>: the matrix is the
  object's own, so the entries are written into the scene.
\<close>

definition write_location :: "vector \<Rightarrow> handle \<Rightarrow> scene \<Rightarrow> scene" where
  "write_location loc ob s =
     set_matrix_world ob (apply_location_to_matrix loc (obj_matrix_world s ob)) s"

text \<open>Lines 123-128 (\<^verbatim>\<open>bsize\<close> is the source's \<^verbatim>\<open>size\<close>).\<close>

definition place_location :: "placement \<Rightarrow> vector \<Rightarrow> vector \<Rightarrow> vector" where
  "place_location p center bsize =
     (case p of
        TOP \<Rightarrow> vadd center (Vector (Fin 0) (Fin 0) (fdivn (vz bsize) 2))
      | CENTER \<Rightarrow> center
      | BOTTOM \<Rightarrow> vsub center (Vector (Fin 0) (Fin 0) (fdivn (vz bsize) 2)))"

text \<open>Lines 116-128: the location the anchor gets.\<close>

definition anchor_location ::
  "ParentToEmpty_props \<Rightarrow> handle \<Rightarrow> handle list \<Rightarrow> scene \<Rightarrow> py_error + vector" where
  "anchor_location self empty_ob objs s =
     (let location = obj_location s empty_ob;
          meshes = filter (is_mesh s) objs
      in if length meshes \<noteq> 0
         then (case get_bounding_box s meshes of
                 Inl err \<Rightarrow> Inl err
               | Inr (center, bsize) \<Rightarrow> Inr (place_location (self_location self) center bsize))
         else Inr location)"

text \<open>
  Lines 136-144, one iteration: the state of the loop is the variable \<^verbatim>\<open>parent\<close>
  and the scene.
\<close>

definition reparent_step ::
  "handle \<Rightarrow> handle list \<Rightarrow> handle \<Rightarrow> handle option \<times> scene \<Rightarrow> handle option \<times> scene" where
  "reparent_step empty_ob objs obj st =
     (case st of (parent, s) \<Rightarrow>
        if (case obj_parent s obj of None \<Rightarrow> False | Some p \<Rightarrow> p \<in> set objs) then (parent, s)
        else
          let parent1 = (if parent = None then obj_parent s obj else parent);
              matrix = obj_matrix_world s obj;
              s1 = set_parent obj (Some empty_ob) s;
              s2 = set_matrix_world obj matrix s1
          in (parent1, s2))"

text \<open>Lines 146-149.\<close>

definition reparent_anchor :: "handle \<Rightarrow> handle option \<Rightarrow> scene \<Rightarrow> scene" where
  "reparent_anchor empty_ob parent s =
     (case parent of
        None \<Rightarrow> s
      | Some p \<Rightarrow>
          let matrix = obj_matrix_world s empty_ob;
              s1 = set_parent empty_ob (Some p) s
          in set_matrix_world empty_ob matrix s1)"

text \<open>Lines 108-110 and 131-133: creation and display flags of the anchor.\<close>

definition new_empty :: "handle \<Rightarrow> scene \<Rightarrow> scene" where
  "new_empty empty_ob s =
     (objects_new empty_ob s)\<lparr>obj_empty_display_type :=
        (obj_empty_display_type s)(empty_ob := ''PLAIN_AXES'')\<rparr>"

definition set_display :: "ParentToEmpty_props \<Rightarrow> handle \<Rightarrow> scene \<Rightarrow> scene" where
  "set_display self empty_ob s =
     s\<lparr>obj_show_name := (obj_show_name s)(empty_ob := self_show_name self),
       obj_show_axis := (obj_show_axis s)(empty_ob := self_show_axis self),
       obj_show_in_front := (obj_show_in_front s)(empty_ob := self_show_in_front self)\<rparr>"

text \<open>Lines 106-114: the anchor created and put at the mean of the translations.\<close>

definition provisional_anchor :: "handle \<Rightarrow> handle list \<Rightarrow> scene \<Rightarrow> py_error + scene" where
  "provisional_anchor empty_ob objs s0 =
     (let s1 = new_empty empty_ob s0 in
      case mean_location s1 objs of
        Inl err \<Rightarrow> Inl err
      | Inr location \<Rightarrow> Inr (write_location location empty_ob s1))"

text \<open>Lines 106-133: the anchor created, placed and configured.\<close>

definition place_anchor ::
  "ParentToEmpty_props \<Rightarrow> handle \<Rightarrow> handle list \<Rightarrow> scene \<Rightarrow> py_error + scene" where
  "place_anchor self empty_ob objs s0 =
     (case provisional_anchor empty_ob objs s0 of
        Inl err \<Rightarrow> Inl err
      | Inr s2 \<Rightarrow>
          (case anchor_location self empty_ob objs s2 of
             Inl err \<Rightarrow> Inl err
           | Inr location \<Rightarrow>
               Inr (set_display self empty_ob (write_location location empty_ob s2))))"

text \<open>Lines 135-149: the re-parenting pass and the anchor's own parent.\<close>

definition reparent_all :: "handle \<Rightarrow> handle list \<Rightarrow> scene \<Rightarrow> scene" where
  "reparent_all empty_ob objs s =
     (case fold (reparent_step empty_ob objs) objs (None, s) of
        (parent, s1) \<Rightarrow> reparent_anchor empty_ob parent s1)"

text \<open>Lines 152-154: the anchor becomes the selection and the active object.\<close>

definition select_only :: "handle \<Rightarrow> scene \<Rightarrow> scene" where
  "select_only empty_ob s =
     (select_set empty_ob True (select_all_DESELECT s))\<lparr>active_object := Some empty_ob\<rparr>"

text \<open>
  Lines 105-156. \<^verbatim>\<open>empty_ob\<close> (the source's \<^verbatim>\<open>empty\<close>) is the handle the
  host gives the new object, and
  \<^verbatim>\<open>objs\<close> lists \<^verbatim>\<open>set(context.selected_objects)\<close> in the order in which the set
  is iterated (the same in each of the three loops).
\<close>

definition ParentToEmpty_execute ::
  "ParentToEmpty_props \<Rightarrow> handle \<Rightarrow> handle list \<Rightarrow> scene \<Rightarrow> py_error + scene" where
  "ParentToEmpty_execute self empty_ob objs s0 =
     (case place_anchor self empty_ob objs s0 of
        Inl err \<Rightarrow> Inl err
      | Inr s \<Rightarrow> Inr (select_only empty_ob (reparent_all empty_ob objs s)))"

section \<open>Notions the properties are stated with\<close>

subsection \<open>Running minimum and maximum\<close>

text \<open>
  What the reducer keeps per axis: the accumulator after \<^verbatim>\<open>min\<close> (\<^verbatim>\<open>max\<close>) has been
  applied to it and to each coordinate in turn.
\<close>

definition run_min :: "pyfloat list \<Rightarrow> pyfloat \<Rightarrow> pyfloat" where
  "run_min xs a = fold (\<lambda>x acc. py_min acc x) xs a"

definition run_max :: "pyfloat list \<Rightarrow> pyfloat \<Rightarrow> pyfloat" where
  "run_max xs a = fold (\<lambda>x acc. py_max acc x) xs a"

definition box_min :: "vector list \<Rightarrow> vector" where
  "box_min ws =
     Vector (run_min (map vx ws) PInf) (run_min (map vy ws) PInf) (run_min (map vz ws) PInf)"

definition box_max :: "vector list \<Rightarrow> vector" where
  "box_max ws =
     Vector (run_max (map vx ws) NInf) (run_max (map vy ws) NInf) (run_max (map vz ws) NInf)"

text \<open>
  All vertex positions of the given nodes in world space: each vertex under the world
  matrix of its own node.
\<close>

definition world_positions :: "scene \<Rightarrow> handle list \<Rightarrow> vector list" where
  "world_positions s objs =
     concat (map (\<lambda>obj. map (matmul_vec (obj_matrix_world s obj)) (vertices (obj_data s obj)))
               objs)"

text \<open>
  The least coordinate of an axis, for floats: a number that no coordinate is below and
  that is one of the coordinates, or plus infinity. Symmetrically for the greatest. Such a
  value is unique (lemmas \<open>axis_min_unique\<close>, \<open>axis_max_unique\<close>).
\<close>

definition axis_min :: "pyfloat \<Rightarrow> pyfloat list \<Rightarrow> bool" where
  "axis_min m xs = (m \<noteq> NaN \<and> (\<forall>x\<in>set xs. \<not> flt x m) \<and> (m = PInf \<or> m \<in> set xs))"

definition axis_max :: "pyfloat \<Rightarrow> pyfloat list \<Rightarrow> bool" where
  "axis_max m xs = (m \<noteq> NaN \<and> (\<forall>x\<in>set xs. \<not> flt m x) \<and> (m = NInf \<or> m \<in> set xs))"

text \<open>A point with finite coordinates.\<close>

definition fin_vector :: "real \<times> real \<times> real \<Rightarrow> vector" where
  "fin_vector p = (case p of (a, b, c) \<Rightarrow> Vector (Fin a) (Fin b) (Fin c))"

definition translation_matrix :: "real \<times> real \<times> real \<Rightarrow> matrix" where
  "translation_matrix p = apply_location_to_matrix (fin_vector p) identity_matrix"

subsection \<open>The relation of a parent function\<close>

definition par_rel :: "(handle \<Rightarrow> handle option) \<Rightarrow> (handle \<times> handle) set" where
  "par_rel par = {(p, c). par c = Some p}"

subsection \<open>Example scenes\<close>

definition empty_scene :: scene where
  "empty_scene =
     \<lparr>data_objects = [], obj_parent = (\<lambda>h. None), obj_matrix_world = (\<lambda>h. identity_matrix),
      obj_data = (\<lambda>h. NoMesh), obj_select = (\<lambda>h. False), active_object = None,
      obj_empty_display_type = (\<lambda>h. []), obj_show_name = (\<lambda>h. False),
      obj_show_axis = (\<lambda>h. False), obj_show_in_front = (\<lambda>h. False)\<rparr>"

text \<open>
  Two selected meshes: node 1 at the identity with vertices (-1,-1,0) and (0,0,1), node 2
  translated by (1,1,1) with vertices (0,0,1) and (-1,0,0). In world space the vertices
  span (-1,-1,0) to (1,1,2).
\<close>

definition two_mesh_scene :: scene where
  "two_mesh_scene =
     empty_scene\<lparr>data_objects := [1, 2],
       obj_matrix_world := (\<lambda>h. if h = 2 then translation_matrix (1, 1, 1) else identity_matrix),
       obj_data := (\<lambda>h. if h = 1 then Mesh [fin_vector (-1, -1, 0), fin_vector (0, 0, 1)]
                         else if h = 2 then Mesh [fin_vector (0, 0, 1), fin_vector (-1, 0, 0)]
                         else NoMesh),
       obj_select := (\<lambda>h. h = 1 \<or> h = 2)\<rparr>"

text \<open>The chain 1 \<rightarrow> 2 \<rightarrow> 3 and a separate node 4; node 1 is selected.\<close>

definition chain_scene :: scene where
  "chain_scene =
     empty_scene\<lparr>data_objects := [1, 2, 3, 4],
       obj_parent := (\<lambda>h. if h = 2 then Some 1 else if h = 3 then Some 2 else None),
       obj_select := (\<lambda>h. h = 1), active_object := Some 1\<rparr>"

text \<open>The same graph with the two leaves 3 and 4 selected.\<close>

definition leaf_scene :: scene where
  "leaf_scene = chain_scene\<lparr>obj_select := (\<lambda>h. h = 3 \<or> h = 4)\<rparr>"

text \<open>One selected mesh without vertices.\<close>

definition bare_mesh_scene :: scene where
  "bare_mesh_scene =
     empty_scene\<lparr>data_objects := [1], obj_data := (\<lambda>h. if h = 1 then Mesh [] else NoMesh),
       obj_select := (\<lambda>h. h = 1)\<rparr>"


text \<open>Two selected nodes without mesh, at (0,0,0) and (2,0,0).\<close>

definition flat_scene :: scene where
  "flat_scene =
     empty_scene\<lparr>data_objects := [1, 2],
       obj_matrix_world := (\<lambda>h. if h = 2 then translation_matrix (2, 0, 0) else identity_matrix),
       obj_select := (\<lambda>h. h = 1 \<or> h = 2)\<rparr>"


text \<open>
  The chain with nodes 1 and 3 selected: node 2, between them, is not selected.
\<close>

definition split_scene :: scene where
  "split_scene = chain_scene\<lparr>obj_select := (\<lambda>h. h = 1 \<or> h = 3)\<rparr>"

text \<open>The operator's properties at their defaults (lines 86-99).\<close>

definition default_props :: ParentToEmpty_props where
  "default_props = \<lparr>self_location = CENTER, self_show_name = True, self_show_axis = False,
     self_show_in_front = True\<rparr>"

subsection \<open>Top-level members of the selection\<close>

text \<open>
  A member of the selection is top-level when its parent is not a member (or it has
  none). The external parents are the parents of the top-level members that have one, in
  the order in which the selection is iterated.
\<close>

definition top_level :: "handle list \<Rightarrow> scene \<Rightarrow> handle \<Rightarrow> bool" where
  "top_level objs s ob = (case obj_parent s ob of None \<Rightarrow> True | Some p \<Rightarrow> p \<notin> set objs)"

definition external_parents :: "handle list \<Rightarrow> scene \<Rightarrow> handle list \<Rightarrow> handle list" where
  "external_parents objs s xs = List.map_filter (obj_parent s) (filter (top_level objs s) xs)"


subsection \<open>The location of the anchor\<close>

text \<open>
  The location \<^verbatim>\<open>ParentToEmpty\<close> gives the anchor, read off the scene before the
  operator (lemma \<open>place_anchor_result\<close>): the mean of the translations when the
  selection has no mesh, the placement on the bounding box of its meshes otherwise.
\<close>

definition anchor_target ::
  "ParentToEmpty_props \<Rightarrow> handle list \<Rightarrow> scene \<Rightarrow> py_error + vector" where
  "anchor_target self objs s0 =
     (case mean_location s0 objs of
        Inl err \<Rightarrow> Inl err
      | Inr m \<Rightarrow>
          (if filter (is_mesh s0) objs = [] then Inr m
           else (case get_bounding_box s0 (filter (is_mesh s0) objs) of
                   Inl err \<Rightarrow> Inl err
                 | Inr (center, bsize) \<Rightarrow>
                     Inr (place_location (self_location self) center bsize))))"

section \<open>Properties\<close>

subsection \<open>Comparisons of floats\<close>

lemma flt_trans: "flt a b \<Longrightarrow> flt b c \<Longrightarrow> flt a c"
  by (cases a; cases b; cases c) auto

lemma flt_negtrans: "b \<noteq> NaN \<Longrightarrow> \<not> flt a b \<Longrightarrow> \<not> flt b c \<Longrightarrow> \<not> flt a c"
  by (cases a; cases b; cases c) auto

lemma flt_irrefl: "\<not> flt a a"
  by (cases a) auto

lemma flt_NaN: "flt a b \<Longrightarrow> a \<noteq> NaN \<and> b \<noteq> NaN"
  by (cases a; cases b) auto

subsection \<open>The bounding-box reducer\<close>

text \<open>
  The accumulator of the reducer starts at an infinity and is never not-a-number; it ends
  at a value that no coordinate passes and that is the start value or one of the
  coordinates.
\<close>

lemma run_min_char:
  "a \<noteq> NaN \<Longrightarrow>
     run_min xs a \<noteq> NaN \<and> \<not> flt a (run_min xs a) \<and> (\<forall>x\<in>set xs. \<not> flt x (run_min xs a)) \<and>
     (run_min xs a = a \<or> run_min xs a \<in> set xs)"
proof (induction xs arbitrary: a)
  case Nil
  then show ?case by (simp add: run_min_def flt_irrefl)
next
  case (Cons x xs)
  let ?a = "py_min a x"
  have a': "?a \<noteq> NaN" using Cons.prems flt_NaN[of x a] by (auto simp: py_min_def)
  have r: "run_min (x # xs) a = run_min xs ?a" by (simp add: run_min_def)
  note IH = Cons.IH[OF a']
  show ?case
  proof (cases "flt x a")
    case True
    then have e: "?a = x" by (simp add: py_min_def)
    from IH e True show ?thesis unfolding r by (auto dest: flt_trans)
  next
    case False
    then have e: "?a = a" by (simp add: py_min_def)
    from IH e False Cons.prems show ?thesis unfolding r by (auto dest: flt_negtrans)
  qed
qed

lemma run_max_char:
  "a \<noteq> NaN \<Longrightarrow>
     run_max xs a \<noteq> NaN \<and> \<not> flt (run_max xs a) a \<and> (\<forall>x\<in>set xs. \<not> flt (run_max xs a) x) \<and>
     (run_max xs a = a \<or> run_max xs a \<in> set xs)"
proof (induction xs arbitrary: a)
  case Nil
  then show ?case by (simp add: run_max_def flt_irrefl)
next
  case (Cons x xs)
  let ?a = "py_max a x"
  have a': "?a \<noteq> NaN" using Cons.prems flt_NaN[of a x] by (auto simp: py_max_def)
  have r: "run_max (x # xs) a = run_max xs ?a" by (simp add: run_max_def)
  note IH = Cons.IH[OF a']
  show ?case
  proof (cases "flt a x")
    case True
    then have e: "?a = x" by (simp add: py_max_def)
    from IH e True show ?thesis unfolding r by (auto dest: flt_trans)
  next
    case False
    then have e: "?a = a" by (simp add: py_max_def)
    from IH e False Cons.prems show ?thesis unfolding r by (auto dest: flt_negtrans)
  qed
qed

lemma fold_bb_update:
  "fold bb_update ws (mn, mx) =
     (Vector (run_min (map vx ws) (vx mn)) (run_min (map vy ws) (vy mn)) (run_min (map vz ws) (vz mn)),
      Vector (run_max (map vx ws) (vx mx)) (run_max (map vy ws) (vy mx)) (run_max (map vz ws) (vz mx)))"
  by (induction ws arbitrary: mn mx) (simp_all add: run_min_def run_max_def bb_update_def)

lemma fold_objs_world_positions:
  "fold (\<lambda>obj. fold (\<lambda>vertex. bb_update (matmul_vec (obj_matrix_world s obj) vertex))
                      (vertices (obj_data s obj))) objs acc
   = fold bb_update (world_positions s objs) acc"
  by (induction objs arbitrary: acc) (simp_all add: world_positions_def fold_map comp_def)



lemma axis_min_unique: "axis_min m xs \<Longrightarrow> axis_min m' xs \<Longrightarrow> m = m'"
  unfolding axis_min_def
  by (cases m; cases m') (auto, (metis flt.simps(1) not_less_iff_gr_or_eq)+)

lemma axis_max_unique: "axis_max m xs \<Longrightarrow> axis_max m' xs \<Longrightarrow> m = m'"
  unfolding axis_max_def
  by (cases m; cases m') (auto, (metis flt.simps(1) not_less_iff_gr_or_eq)+)

text \<open>On finite coordinates the running minimum and maximum are \<open>Min\<close> and \<open>Max\<close>.\<close>

lemma run_min_Fin:
  assumes "rs \<noteq> []"
  shows "run_min (map Fin rs) PInf = Fin (Min (set rs))"
proof -
  let ?m = "run_min (map Fin rs) PInf"
  from run_min_char[of PInf "map Fin rs"]
  have lb: "\<forall>r\<in>set rs. \<not> flt (Fin r) ?m" and at: "?m = PInf \<or> ?m \<in> Fin ` set rs"
    by auto
  from assms obtain r0 where r0: "r0 \<in> set rs" by (cases rs) auto
  with lb have "?m \<noteq> PInf" by (metis flt.simps(2))
  with at obtain r where r: "r \<in> set rs" "?m = Fin r" by auto
  with lb have "\<forall>q\<in>set rs. r \<le> q" by (auto simp: not_less)
  with r have "Min (set rs) = r" by (intro Min_eqI) auto
  with r show ?thesis by simp
qed

lemma run_max_Fin:
  assumes "rs \<noteq> []"
  shows "run_max (map Fin rs) NInf = Fin (Max (set rs))"
proof -
  let ?m = "run_max (map Fin rs) NInf"
  from run_max_char[of NInf "map Fin rs"]
  have ub: "\<forall>r\<in>set rs. \<not> flt ?m (Fin r)" and at: "?m = NInf \<or> ?m \<in> Fin ` set rs"
    by auto
  from assms obtain r0 where r0: "r0 \<in> set rs" by (cases rs) auto
  with ub have "?m \<noteq> NInf" by (metis flt.simps(3))
  with at obtain r where r: "r \<in> set rs" "?m = Fin r" by auto
  with ub have "\<forall>q\<in>set rs. q \<le> r" by (auto simp: not_less)
  with r have "Max (set rs) = r" by (intro Max_eqI) auto
  with r show ?thesis by simp
qed

lemma get_bounding_box_box:
  assumes "\<not> list_ex (\<lambda>obj. obj_data s obj = NoMesh) objs"
  shows "get_bounding_box s objs =
           Inr (vdivn (vadd (box_min (world_positions s objs)) (box_max (world_positions s objs))) 2,
                vsub (box_max (world_positions s objs)) (box_min (world_positions s objs)))"
  using assms
  by (simp add: get_bounding_box_def fold_objs_world_positions fold_bb_update box_min_def box_max_def)

lemma box_min_fin:
  "ps \<noteq> [] \<Longrightarrow> box_min (map fin_vector ps) =
     Vector (Fin (Min (fst ` set ps))) (Fin (Min ((fst \<circ> snd) ` set ps))) (Fin (Min ((snd \<circ> snd) ` set ps)))"
proof -
  assume ne: "ps \<noteq> []"
  have x: "map vx (map fin_vector ps) = map Fin (map fst ps)"
    by (simp add: fin_vector_def split_def)
  have y: "map vy (map fin_vector ps) = map Fin (map (fst \<circ> snd) ps)"
    by (simp add: fin_vector_def split_def)
  have z: "map vz (map fin_vector ps) = map Fin (map (snd \<circ> snd) ps)"
    by (simp add: fin_vector_def split_def)
  have "map fst ps \<noteq> []" "map (fst \<circ> snd) ps \<noteq> []" "map (snd \<circ> snd) ps \<noteq> []"
    using ne by simp_all
  from this[THEN run_min_Fin] show ?thesis
    unfolding box_min_def x y z by (simp only: set_map)
qed

lemma box_max_fin:
  "ps \<noteq> [] \<Longrightarrow> box_max (map fin_vector ps) =
     Vector (Fin (Max (fst ` set ps))) (Fin (Max ((fst \<circ> snd) ` set ps))) (Fin (Max ((snd \<circ> snd) ` set ps)))"
proof -
  assume ne: "ps \<noteq> []"
  have x: "map vx (map fin_vector ps) = map Fin (map fst ps)"
    by (simp add: fin_vector_def split_def)
  have y: "map vy (map fin_vector ps) = map Fin (map (fst \<circ> snd) ps)"
    by (simp add: fin_vector_def split_def)
  have z: "map vz (map fin_vector ps) = map Fin (map (snd \<circ> snd) ps)"
    by (simp add: fin_vector_def split_def)
  have "map fst ps \<noteq> []" "map (fst \<circ> snd) ps \<noteq> []" "map (snd \<circ> snd) ps \<noteq> []"
    using ne by simp_all
  from this[THEN run_max_Fin] show ?thesis
    unfolding box_max_def x y z by (simp only: set_map)
qed

lemma two_mesh_world_positions:
  "world_positions two_mesh_scene [1, 2] =
     map fin_vector [(-1, -1, 0), (0, 0, 1), (1, 1, 2), (0, 1, 1)]"
  by (simp add: world_positions_def two_mesh_scene_def empty_scene_def translation_matrix_def
      identity_matrix_def fin_vector_def)

lemma two_mesh_all_mesh: "\<not> list_ex (\<lambda>obj. obj_data two_mesh_scene obj = NoMesh) [1, 2]"
  by (simp add: two_mesh_scene_def empty_scene_def)

lemma get_bounding_box_fin:
  assumes "\<not> list_ex (\<lambda>obj. obj_data s obj = NoMesh) objs"
    and "world_positions s objs = map fin_vector ps" and "ps \<noteq> []"
  shows "get_bounding_box s objs =
           Inr (fin_vector ((Min (fst ` set ps) + Max (fst ` set ps)) / 2,
                            (Min ((fst \<circ> snd) ` set ps) + Max ((fst \<circ> snd) ` set ps)) / 2,
                            (Min ((snd \<circ> snd) ` set ps) + Max ((snd \<circ> snd) ` set ps)) / 2),
                fin_vector (Max (fst ` set ps) - Min (fst ` set ps),
                            Max ((fst \<circ> snd) ` set ps) - Min ((fst \<circ> snd) ` set ps),
                            Max ((snd \<circ> snd) ` set ps) - Min ((snd \<circ> snd) ` set ps)))"
  unfolding get_bounding_box_box[OF assms(1)] assms(2) box_min_fin[OF assms(3)] box_max_fin[OF assms(3)]
  by (simp add: vadd_def vsub_def vdivn_def fsub_def fin_vector_def)

lemma two_mesh_box:
  "get_bounding_box two_mesh_scene [1, 2] =
     Inr (Vector (Fin 0) (Fin 0) (Fin 1), Vector (Fin 2) (Fin 2) (Fin 2))"
  using get_bounding_box_fin[OF two_mesh_all_mesh two_mesh_world_positions]
  by (simp add: fin_vector_def)



subsection \<open>Ancestors and the transitive closure\<close>

text \<open>
  In a scene of the host (\<open>wf_scene\<close>) the bounded walk up the parents finds every
  ancestor: the chain above an object has no repetition and stays among the objects of
  the scene, so it is shorter than their number.
\<close>

lemma child_rel_par_rel: "child_rel s = par_rel (obj_parent s)"
  by (simp add: child_rel_def par_rel_def)

lemma ancestors_sound: "q \<in> set (ancestors n par c) \<Longrightarrow> (q, c) \<in> (par_rel par)\<^sup>+"
proof (induction n arbitrary: c)
  case 0
  then show ?case by simp
next
  case (Suc n)
  from Suc.prems obtain p where p: "par c = Some p" and q: "q = p \<or> q \<in> set (ancestors n par p)"
    by (cases "par c") auto
  have e: "(p, c) \<in> par_rel par" using p by (simp add: par_rel_def)
  from q show ?case
  proof
    assume "q = p"
    with e show ?thesis by blast
  next
    assume "q \<in> set (ancestors n par p)"
    then have "(q, p) \<in> (par_rel par)\<^sup>+" by (rule Suc.IH)
    from this e show ?thesis by (rule trancl_into_trancl)
  qed
qed

lemma ancestors_reach: "(q, c) \<in> (par_rel par)\<^sup>+ \<Longrightarrow> \<exists>n. q \<in> set (ancestors n par c)"
proof (induction rule: trancl_induct)
  case (base y)
  then have "par y = Some q" by (simp add: par_rel_def)
  then have "q \<in> set (ancestors (Suc 0) par y)" by simp
  then show ?case by blast
next
  case (step y z)
  then obtain n where "q \<in> set (ancestors n par y)" by blast
  moreover from step have "par z = Some y" by (simp add: par_rel_def)
  ultimately have "q \<in> set (ancestors (Suc n) par z)" by simp
  then show ?case by blast
qed

lemma ancestors_mono: "n \<le> m \<Longrightarrow> set (ancestors n par c) \<subseteq> set (ancestors m par c)"
proof (induction n arbitrary: m c)
  case 0
  then show ?case by simp
next
  case (Suc n)
  then obtain m' where m: "m = Suc m'" and le: "n \<le> m'" by (cases m) auto
  show ?case using Suc.IH[OF le] unfolding m by (auto split: option.splits)
qed

lemma ancestors_stable:
  "length (ancestors n par c) < n \<Longrightarrow> n \<le> m \<Longrightarrow> ancestors m par c = ancestors n par c"
proof (induction n arbitrary: m c)
  case 0
  then show ?case by simp
next
  case (Suc n)
  then obtain m' where m: "m = Suc m'" and le: "n \<le> m'" by (cases m) auto
  show ?case
  proof (cases "par c")
    case None
    then show ?thesis by (simp add: m)
  next
    case (Some p)
    with Suc.prems have "length (ancestors n par p) < n" by simp
    from Suc.IH[OF this le] Some show ?thesis by (simp add: m)
  qed
qed

lemma ancestors_distinct:
  "acyclic (par_rel par) \<Longrightarrow> distinct (c # ancestors n par c)"
proof (induction n arbitrary: c)
  case 0
  then show ?case by simp
next
  case (Suc n)
  show ?case
  proof (cases "par c")
    case None
    then show ?thesis by simp
  next
    case (Some p)
    have IH: "distinct (p # ancestors n par p)" by (rule Suc.IH[OF Suc.prems])
    have e: "(p, c) \<in> par_rel par" using Some by (simp add: par_rel_def)
    have "c \<noteq> p"
    proof
      assume "c = p"
      with e have "(c, c) \<in> (par_rel par)\<^sup>+" by blast
      with Suc.prems show False by (simp add: acyclic_def)
    qed
    moreover have "c \<notin> set (ancestors n par p)"
    proof
      assume "c \<in> set (ancestors n par p)"
      then have "(c, p) \<in> (par_rel par)\<^sup>+" by (rule ancestors_sound)
      from this e have "(c, c) \<in> (par_rel par)\<^sup>+" by (rule trancl_into_trancl)
      with Suc.prems show False by (simp add: acyclic_def)
    qed
    ultimately show ?thesis using IH Some by simp
  qed
qed

lemma ancestors_in_scene:
  assumes "\<forall>c p. par c = Some p \<longrightarrow> c \<in> A \<and> p \<in> A"
  shows "ancestors n par c \<noteq> [] \<Longrightarrow> set (c # ancestors n par c) \<subseteq> A"
proof (induction n arbitrary: c)
  case 0
  then show ?case by simp
next
  case (Suc n)
  then obtain p where p: "par c = Some p" by (cases "par c") auto
  with assms have cA: "c \<in> A" "p \<in> A" by blast+
  show ?case
  proof (cases "ancestors n par p = []")
    case True
    with p cA show ?thesis by simp
  next
    case False
    from Suc.IH[OF this] p cA show ?thesis by simp
  qed
qed

lemma ancestors_complete:
  assumes wf: "\<forall>c p. par c = Some p \<longrightarrow> c \<in> set objs \<and> p \<in> set objs"
    and ac: "acyclic (par_rel par)"
    and r: "(q, c) \<in> (par_rel par)\<^sup>+"
  shows "q \<in> set (ancestors (length objs) par c)"
proof -
  let ?N = "length objs"
  from ancestors_reach[OF r] obtain n where n: "q \<in> set (ancestors n par c)" by blast
  show ?thesis
  proof (cases "n \<le> ?N")
    case True
    with n ancestors_mono show ?thesis by blast
  next
    case False
    then have le: "?N \<le> n" by simp
    from n le ancestors_mono have ne: "ancestors n par c \<noteq> []" by auto
    have "par c \<noteq> None" using ne by (cases n) (auto split: option.splits)
    then have neN: "ancestors ?N par c \<noteq> [] \<or> ?N = 0" by (cases ?N) auto
    from wf \<open>par c \<noteq> None\<close> have "c \<in> set objs" by auto
    then have "?N \<noteq> 0" by auto
    with neN have "ancestors ?N par c \<noteq> []" by simp
    from ancestors_in_scene[OF wf this] have sub: "set (c # ancestors ?N par c) \<subseteq> set objs" .
    have "length (c # ancestors ?N par c) = card (set (c # ancestors ?N par c))"
      using ancestors_distinct[OF ac, of c ?N] by (rule distinct_card[symmetric])
    also have "\<dots> \<le> card (set objs)" using sub by (intro card_mono) auto
    also have "\<dots> \<le> ?N" by (rule card_length)
    finally have "length (ancestors ?N par c) < ?N" by simp
    from ancestors_stable[OF this le] n show ?thesis by simp
  qed
qed

lemma ancestors_iff:
  assumes "wf_scene s"
  shows "q \<in> set (ancestors (length (data_objects s)) (obj_parent s) c) \<longleftrightarrow> (q, c) \<in> (child_rel s)\<^sup>+"
  using assms ancestors_sound[of q _ "obj_parent s" c]
    ancestors_complete[of "obj_parent s" "data_objects s" q c]
  unfolding wf_scene_def child_rel_par_rel by blast

lemma children_recursive_descendants:
  assumes "wf_scene s"
  shows "set (children_recursive s p) = descendants s p"
proof -
  have "c \<in> set (data_objects s)" if "(p, c) \<in> (child_rel s)\<^sup>+" for c
  proof -
    from that obtain q where "(q, c) \<in> child_rel s" by (meson tranclE)
    with assms show ?thesis by (auto simp: wf_scene_def child_rel_def)
  qed
  then show ?thesis
    by (auto simp: children_recursive_def descendants_def ancestors_iff[OF assms])
qed

subsection \<open>DeleteRecursive\<close>

lemma set_set_add: "set (set_add x xs) = insert x (set xs)"
  by (auto simp: set_add_def)

lemma distinct_set_add: "distinct xs \<Longrightarrow> distinct (set_add x xs)"
  by (simp add: set_add_def)

lemma fold_set_add:
  "set (fold set_add ys acc) = set ys \<union> set acc \<and> (distinct acc \<longrightarrow> distinct (fold set_add ys acc))"
  by (induction ys arbitrary: acc) (auto simp: set_set_add distinct_set_add)

lemma collect_fold:
  "set (fold (\<lambda>parent objs. fold set_add (children_recursive s parent) (set_add parent objs)) roots acc)
     = set acc \<union> set roots \<union> (\<Union>r\<in>set roots. set (children_recursive s r)) \<and>
   (distinct acc \<longrightarrow>
      distinct (fold (\<lambda>parent objs. fold set_add (children_recursive s parent) (set_add parent objs)) roots acc))"
proof (induction roots arbitrary: acc)
  case Nil
  then show ?case by simp
next
  case (Cons r roots)
  let ?acc = "fold set_add (children_recursive s r) (set_add r acc)"
  have 1: "set ?acc = set (children_recursive s r) \<union> insert r (set acc)"
    using fold_set_add[of "children_recursive s r" "set_add r acc"] by (simp add: set_set_add)
  have 2: "distinct acc \<Longrightarrow> distinct ?acc"
    using fold_set_add[of "children_recursive s r" "set_add r acc"] by (simp add: distinct_set_add)
  from Cons.IH[of ?acc] 1 2 show ?case by auto
qed

lemma set_collect_recursive:
  "set (collect_recursive s roots) = set roots \<union> (\<Union>r\<in>set roots. set (children_recursive s r))"
  using collect_fold[of s roots "[]"] by (simp add: collect_recursive_def)

lemma distinct_collect_recursive: "distinct (collect_recursive s roots)"
  using collect_fold[of s roots "[]"] by (simp add: collect_recursive_def)

lemma data_objects_fold_remove:
  "data_objects (fold objects_remove xs s) = filter (\<lambda>h. h \<notin> set xs) (data_objects s)"
proof (induction xs arbitrary: s)
  case Nil
  then show ?case by simp
next
  case (Cons x xs)
  have "data_objects (objects_remove x s) = filter (\<lambda>h. h \<noteq> x) (data_objects s)"
    by (simp add: objects_remove_def removeAll_filter_not_eq) (metis)
  with Cons.IH[of "objects_remove x s"] show ?case by (auto intro: filter_cong)
qed

lemma chain_child_rel: "child_rel chain_scene = {(1, 2), (2, 3)}"
  by (auto simp: child_rel_def chain_scene_def empty_scene_def split: if_splits)

lemma chain_wf: "wf_scene chain_scene"
  unfolding wf_scene_def chain_child_rel
  by (auto simp: chain_scene_def empty_scene_def trancl_insert rtrancl_trancl_reflcl acyclic_def split: if_splits)

lemma chain_collect1: "collect_recursive chain_scene [1] = [1, 2, 3]"
  by (simp add: collect_recursive_def children_recursive_def chain_scene_def empty_scene_def set_add_def)

lemma chain_collect2: "collect_recursive chain_scene [1, 2] = [1, 2, 3]"
  by (simp add: collect_recursive_def children_recursive_def chain_scene_def empty_scene_def set_add_def)

text \<open>
  Claim C6. In an acyclic scene graph, for every list of roots the collector of
  \<^verbatim>\<open>DeleteRecursive\<close> computes exactly the roots and all their transitive
  descendants, each node once, also when a node is reachable from several roots; no roots
  give no nodes; and \<^verbatim>\<open>DeleteRecursive\<close> removes from the scene precisely the
  selected nodes and their descendants. The chain of the spec (roots {A} and {A,B} both
  give {A,B,C}) is the witness, with A, B, C the nodes 1, 2, 3.
\<close>

theorem C6_recursive_collector:
  "wf_scene s \<longrightarrow>
     set (collect_recursive s roots) = set roots \<union> (\<Union>r\<in>set roots. descendants s r) \<and>
     distinct (collect_recursive s roots) \<and>
     collect_recursive s [] = [] \<and>
     set (data_objects (DeleteRecursive_execute s)) =
       set (data_objects s) -
         (set (selected_objects s) \<union> (\<Union>r\<in>set (selected_objects s). descendants s r))"
proof (intro impI conjI)
  assume wf: "wf_scene s"
  show c: "set (collect_recursive s roots) = set roots \<union> (\<Union>r\<in>set roots. descendants s r)" for roots
    by (simp add: set_collect_recursive children_recursive_descendants[OF wf])
  show "distinct (collect_recursive s roots)" by (rule distinct_collect_recursive)
  show "collect_recursive s [] = []" by (simp add: collect_recursive_def)
  show "set (data_objects (DeleteRecursive_execute s)) =
       set (data_objects s) -
         (set (selected_objects s) \<union> (\<Union>r\<in>set (selected_objects s). descendants s r))"
    unfolding DeleteRecursive_execute_def data_objects_fold_remove c by auto
qed

theorem C6_recursive_collector_witness:
  "wf_scene chain_scene \<and>
   descendants chain_scene 1 = {2, 3} \<and> descendants chain_scene 2 = {3} \<and>
   set (collect_recursive chain_scene [1]) = {1, 2, 3} \<and>
   set (collect_recursive chain_scene [1, 2]) = {1, 2, 3} \<and>
   distinct (collect_recursive chain_scene [1, 2]) \<and>
   collect_recursive chain_scene [1, 2] = [1, 2, 3] \<and>
   selected_objects chain_scene = [1] \<and>
   set (data_objects (DeleteRecursive_execute chain_scene)) = {4}"
proof -
  have d1: "descendants chain_scene 1 = {2, 3}" and d2: "descendants chain_scene 2 = {3}"
    unfolding descendants_def chain_child_rel
    by (auto simp: trancl_insert rtrancl_trancl_reflcl)
  have sel: "selected_objects chain_scene = [1]"
    by (simp add: selected_objects_def chain_scene_def empty_scene_def)
  have objs: "data_objects chain_scene = [1, 2, 3, 4]" by (simp add: chain_scene_def empty_scene_def)
  from C6_recursive_collector[of chain_scene "[1]"] C6_recursive_collector[of chain_scene "[1, 2]"]
    chain_wf d1 d2 sel objs chain_collect2
  show ?thesis by auto
qed

subsection \<open>SelectDescendants\<close>

lemma children_recursive_select:
  "children_recursive (s\<lparr>obj_select := f\<rparr>) p = children_recursive s p"
  by (simp add: children_recursive_def)

lemma fold_select_set:
  "fold (\<lambda>obj s2. select_set obj True s2) xs s = s\<lparr>obj_select := (\<lambda>ob. ob \<in> set xs \<or> obj_select s ob)\<rparr>"
proof (induction xs arbitrary: s)
  case Nil
  then show ?case by simp
next
  case (Cons x xs)
  show ?case unfolding fold_simps Cons.IH
    by (auto simp: select_set_def fun_eq_iff)
qed

lemma fold_select_descendants:
  "fold (\<lambda>obj s1. fold (\<lambda>obj s2. select_set obj True s2) (children_recursive s1 obj) s1) roots
      (s\<lparr>obj_select := f\<rparr>)
   = s\<lparr>obj_select := (\<lambda>ob. f ob \<or> (\<exists>r\<in>set roots. ob \<in> set (children_recursive s r)))\<rparr>"
proof (induction roots arbitrary: f)
  case Nil
  then show ?case by simp
next
  case (Cons r roots)
  let ?F = "\<lambda>obj s1. fold (\<lambda>obj s2. select_set obj True s2) (children_recursive s1 obj) s1"
  have step: "?F r (s\<lparr>obj_select := f\<rparr>) =
      s\<lparr>obj_select := (\<lambda>ob. ob \<in> set (children_recursive s r) \<or> f ob)\<rparr>"
    by (simp add: fold_select_set children_recursive_select)
  have "fold ?F (r # roots) (s\<lparr>obj_select := f\<rparr>) = fold ?F roots (?F r (s\<lparr>obj_select := f\<rparr>))"
    by simp
  also have "\<dots> = s\<lparr>obj_select := (\<lambda>ob. (ob \<in> set (children_recursive s r) \<or> f ob) \<or>
        (\<exists>r\<in>set roots. ob \<in> set (children_recursive s r)))\<rparr>"
    unfolding step by (rule Cons.IH)
  also have "\<dots> = s\<lparr>obj_select := (\<lambda>ob. f ob \<or>
        (\<exists>r\<in>set (r # roots). ob \<in> set (children_recursive s r)))\<rparr>"
    by (rule arg_cong[where f = "\<lambda>g. s\<lparr>obj_select := g\<rparr>"]) (auto simp: fun_eq_iff)
  finally show ?case .
qed

lemma SelectDescendants_result:
  "SelectDescendants_execute s =
     s\<lparr>obj_select := (\<lambda>ob. obj_select s ob \<or>
          (\<exists>r\<in>set (selected_objects s). ob \<in> set (children_recursive s r)))\<rparr>"
  using fold_select_descendants[where roots = "selected_objects s" and s = s and f = "obj_select s"]
  by (simp add: SelectDescendants_execute_def)

lemma children_recursive_leaf:
  assumes "\<forall>c. obj_parent s c \<noteq> Some r"
  shows "children_recursive s r = []"
proof -
  have "r \<notin> set (ancestors n (obj_parent s) c)" for n c
  proof
    assume "r \<in> set (ancestors n (obj_parent s) c)"
    then have "(r, c) \<in> (par_rel (obj_parent s))\<^sup>+" by (rule ancestors_sound)
    then obtain c' where "(r, c') \<in> par_rel (obj_parent s)" by (meson converse_tranclE)
    with assms show False by (simp add: par_rel_def)
  qed
  then show ?thesis by (simp add: children_recursive_def)
qed

text \<open>
  Claim C8. \<^verbatim>\<open>SelectDescendants\<close> adds to the selection the transitive descendants of
  the selected nodes and nothing else (in an acyclic scene, where no root is its own
  descendant); the selected roots are not part of the change; when every selected node is
  a leaf, the scene is left as it is; no node is deselected; objects and parent links are
  not touched.
\<close>

theorem C8_select_descendants:
  "(wf_scene s \<longrightarrow>
      {ob. obj_select (SelectDescendants_execute s) ob} =
        {ob. obj_select s ob} \<union> (\<Union>r\<in>set (selected_objects s). descendants s r) \<and>
      (\<forall>r\<in>set (selected_objects s). r \<notin> descendants s r)) \<and>
   set (selected_objects s) \<inter>
     ({ob. obj_select (SelectDescendants_execute s) ob} - {ob. obj_select s ob}) = {} \<and>
   ((\<forall>r\<in>set (selected_objects s). \<forall>c. obj_parent s c \<noteq> Some r) \<longrightarrow>
      SelectDescendants_execute s = s) \<and>
   (\<forall>ob. obj_select s ob \<longrightarrow> obj_select (SelectDescendants_execute s) ob) \<and>
   data_objects (SelectDescendants_execute s) = data_objects s \<and>
   obj_parent (SelectDescendants_execute s) = obj_parent s"
proof (intro conjI impI)
  assume wf: "wf_scene s"
  show "{ob. obj_select (SelectDescendants_execute s) ob} =
        {ob. obj_select s ob} \<union> (\<Union>r\<in>set (selected_objects s). descendants s r)"
    unfolding SelectDescendants_result
    by (auto simp: children_recursive_descendants[OF wf])
  show "\<forall>r\<in>set (selected_objects s). r \<notin> descendants s r"
    using wf by (auto simp: wf_scene_def descendants_def acyclic_def)
next
  show "set (selected_objects s) \<inter>
     ({ob. obj_select (SelectDescendants_execute s) ob} - {ob. obj_select s ob}) = {}"
    by (auto simp: selected_objects_def)
next
  assume "\<forall>r\<in>set (selected_objects s). \<forall>c. obj_parent s c \<noteq> Some r"
  then have "\<forall>r\<in>set (selected_objects s). children_recursive s r = []"
    by (simp add: children_recursive_leaf)
  then show "SelectDescendants_execute s = s"
    unfolding SelectDescendants_result by simp
next
  show "\<forall>ob. obj_select s ob \<longrightarrow> obj_select (SelectDescendants_execute s) ob"
    unfolding SelectDescendants_result by simp
  show "data_objects (SelectDescendants_execute s) = data_objects s"
    unfolding SelectDescendants_result by simp
  show "obj_parent (SelectDescendants_execute s) = obj_parent s"
    unfolding SelectDescendants_result by simp
qed

theorem C8_select_descendants_witness:
  "wf_scene chain_scene \<and> selected_objects chain_scene = [1] \<and>
   {ob. obj_select chain_scene ob} = {1} \<and>
   {ob. obj_select (SelectDescendants_execute chain_scene) ob} = {1, 2, 3} \<and>
   selected_objects leaf_scene = [3, 4] \<and>
   obj_parent leaf_scene 1 = None \<and> obj_parent leaf_scene 2 = Some 1 \<and>
   obj_parent leaf_scene 3 = Some 2 \<and> obj_parent leaf_scene 4 = None \<and>
   SelectDescendants_execute leaf_scene = leaf_scene"
proof -
  have d1: "descendants chain_scene 1 = {2, 3}"
    unfolding descendants_def chain_child_rel
    by (auto simp: trancl_insert rtrancl_trancl_reflcl)
  have sel: "selected_objects chain_scene = [1]"
    by (simp add: selected_objects_def chain_scene_def empty_scene_def)
  have flags: "{ob. obj_select chain_scene ob} = {1}" by (auto simp: chain_scene_def empty_scene_def)
  have lsel: "selected_objects leaf_scene = [3, 4]"
    by (simp add: selected_objects_def leaf_scene_def chain_scene_def empty_scene_def)
  have lpar: "obj_parent leaf_scene = (\<lambda>h. if h = 2 then Some 1 else if h = 3 then Some 2 else None)"
    by (simp add: leaf_scene_def chain_scene_def empty_scene_def)
  have leaf: "\<forall>r\<in>set (selected_objects leaf_scene). \<forall>c. obj_parent leaf_scene c \<noteq> Some r"
    unfolding lsel lpar by simp
  from C8_select_descendants[of chain_scene] chain_wf d1 sel flags
  have 1: "{ob. obj_select (SelectDescendants_execute chain_scene) ob} = {1, 2, 3}" by auto
  from C8_select_descendants[of leaf_scene] leaf
  have 2: "SelectDescendants_execute leaf_scene = leaf_scene" by blast
  from 1 2 chain_wf sel flags lsel lpar show ?thesis by simp
qed

subsection \<open>ParentToEmpty: the re-parenting pass\<close>






lemma reparent_step_matrix:
  "obj_matrix_world (snd (reparent_step e objs x st)) = obj_matrix_world (snd st)"
  by (cases st) (simp add: reparent_step_def Let_def set_matrix_world_def set_parent_def fun_eq_iff)



subsection \<open>ParentToEmpty: placing the anchor\<close>

lemma translation_apply_location:
  "translation (apply_location_to_matrix loc m) = loc"
  by (induction loc m rule: apply_location_to_matrix.induct) simp

lemma apply_location_twice:
  "apply_location_to_matrix loc (apply_location_to_matrix loc' m) = apply_location_to_matrix loc m"
  by (induction loc' m rule: apply_location_to_matrix.induct) simp

lemma mean_location_cong:
  "\<forall>ob\<in>set objs. obj_matrix_world s' ob = obj_matrix_world s ob \<Longrightarrow>
     mean_location s' objs = mean_location s objs"
proof -
  assume a: "\<forall>ob\<in>set objs. obj_matrix_world s' ob = obj_matrix_world s ob"
  have "fold (\<lambda>obj acc. vadd acc (translation (obj_matrix_world s' obj))) objs acc =
        fold (\<lambda>obj acc. vadd acc (translation (obj_matrix_world s obj))) objs acc" for acc
    using a by (intro fold_cong) auto
  then show ?thesis by (simp add: mean_location_def)
qed

lemma mean_location_Inr:
  "objs \<noteq> [] \<Longrightarrow> \<exists>m. mean_location s objs = Inr m"
  by (simp add: mean_location_def Vector_div_def)

lemma mean_location_empty: "mean_location s [] = Inl ZeroDivisionError"
  by (simp add: mean_location_def Vector_div_def)

lemma fold_vadd_fin:
  "fold (\<lambda>p acc. vadd acc (fin_vector p)) ps (fin_vector (a, b, c)) =
     fin_vector (a + sum_list (map fst ps), b + sum_list (map (fst \<circ> snd) ps),
                 c + sum_list (map (snd \<circ> snd) ps))"
  by (induction ps arbitrary: a b c) (auto simp: fin_vector_def vadd_def add.assoc)

lemma mean_location_fin:
  assumes "map (\<lambda>obj. translation (obj_matrix_world s obj)) objs = map fin_vector ps"
    and "objs \<noteq> []"
  shows "mean_location s objs =
     Inr (fin_vector (sum_list (map fst ps) / real (length ps),
                      sum_list (map (fst \<circ> snd) ps) / real (length ps),
                      sum_list (map (snd \<circ> snd) ps) / real (length ps)))"
proof -
  have len: "length objs = length ps" using assms(1) by (metis length_map)
  have "fold (\<lambda>obj acc. vadd acc (translation (obj_matrix_world s obj))) objs Vector0 =
        fold (\<lambda>v acc. vadd acc v) (map (\<lambda>obj. translation (obj_matrix_world s obj)) objs) Vector0"
    by (simp add: fold_map comp_def)
  also have "\<dots> = fold (\<lambda>p acc. vadd acc (fin_vector p)) ps (fin_vector (0, 0, 0))"
    unfolding assms(1) by (simp add: fold_map comp_def Vector0_def fin_vector_def)
  finally have "fold (\<lambda>obj acc. vadd acc (translation (obj_matrix_world s obj))) objs Vector0 =
      fin_vector (sum_list (map fst ps), sum_list (map (fst \<circ> snd) ps), sum_list (map (snd \<circ> snd) ps))"
    by (simp add: fold_vadd_fin)
  moreover have "ps \<noteq> []" using assms(2) len by auto
  ultimately show ?thesis
    using len by (simp add: mean_location_def Vector_div_def vdivn_def fin_vector_def)
qed

lemma get_bounding_box_cong:
  assumes "\<forall>ob\<in>set xs. obj_data s' ob = obj_data s ob \<and> obj_matrix_world s' ob = obj_matrix_world s ob"
  shows "get_bounding_box s' xs = get_bounding_box s xs"
proof -
  have 1: "list_ex (\<lambda>obj. obj_data s' obj = NoMesh) xs = list_ex (\<lambda>obj. obj_data s obj = NoMesh) xs"
    using assms by (auto simp: list_ex_iff)
  have 2: "world_positions s' xs = world_positions s xs"
    unfolding world_positions_def using assms by (intro arg_cong[where f = concat] map_cong) auto
  show ?thesis
    by (simp add: get_bounding_box_def 1 fold_objs_world_positions 2)
qed

lemma get_bounding_box_meshes:
  "\<exists>center bsize. get_bounding_box s (filter (is_mesh s) objs) = Inr (center, bsize)"
proof -
  have "\<not> list_ex (\<lambda>obj. obj_data s obj = NoMesh) (filter (is_mesh s) objs)"
    by (auto simp: list_ex_iff is_mesh_def)
  from get_bounding_box_box[OF this] show ?thesis by blast
qed

lemma new_empty_fields:
  "data_objects (new_empty e s) = data_objects s @ [e]"
  "obj_parent (new_empty e s) = (obj_parent s)(e := None)"
  "obj_matrix_world (new_empty e s) = (obj_matrix_world s)(e := identity_matrix)"
  "obj_data (new_empty e s) = (obj_data s)(e := NoMesh)"
  "obj_select (new_empty e s) = (obj_select s)(e := False)"
  by (simp_all add: new_empty_def objects_new_def)

lemma write_location_fields:
  "data_objects (write_location loc e s) = data_objects s"
  "obj_parent (write_location loc e s) = obj_parent s"
  "obj_matrix_world (write_location loc e s) =
     (obj_matrix_world s)(e := apply_location_to_matrix loc (obj_matrix_world s e))"
  "obj_data (write_location loc e s) = obj_data s"
  "obj_select (write_location loc e s) = obj_select s"
  by (simp_all add: write_location_def set_matrix_world_def)

lemma set_display_fields:
  "data_objects (set_display self e s) = data_objects s"
  "obj_parent (set_display self e s) = obj_parent s"
  "obj_matrix_world (set_display self e s) = obj_matrix_world s"
  "obj_data (set_display self e s) = obj_data s"
  "obj_select (set_display self e s) = obj_select s"
  by (simp_all add: set_display_def)

text \<open>The anchor after lines 106-114 is at the mean, whatever the scene.\<close>

lemma provisional_anchor_result:
  assumes "e \<notin> set objs" and "mean_location s0 objs = Inr m"
  shows "provisional_anchor e objs s0 = Inr (write_location m e (new_empty e s0))"
proof -
  have "mean_location (new_empty e s0) objs = mean_location s0 objs"
    using assms(1) by (intro mean_location_cong) (auto simp: new_empty_fields)
  then show ?thesis by (simp add: provisional_anchor_def Let_def assms(2))
qed

lemma provisional_anchor_location:
  "obj_location (write_location m e (new_empty e s0)) e = m"
  by (simp add: obj_location_def write_location_fields translation_apply_location)

text \<open>The location of lines 116-128, in terms of the scene before the operator.\<close>

lemma anchor_location_result:
  assumes "e \<notin> set objs"
  shows "anchor_location self e objs (write_location m e (new_empty e s0)) =
     (if filter (is_mesh s0) objs = [] then Inr m
      else (case get_bounding_box s0 (filter (is_mesh s0) objs) of
              Inl err \<Rightarrow> Inl err
            | Inr (center, bsize) \<Rightarrow> Inr (place_location (self_location self) center bsize)))"
proof -
  let ?s2 = "write_location m e (new_empty e s0)"
  have d: "\<forall>ob\<in>set objs. obj_data ?s2 ob = obj_data s0 ob \<and> obj_matrix_world ?s2 ob = obj_matrix_world s0 ob"
    using assms by (auto simp: write_location_fields new_empty_fields)
  have f: "filter (is_mesh ?s2) objs = filter (is_mesh s0) objs"
    using d by (intro filter_cong) (auto simp: is_mesh_def)
  have b: "get_bounding_box ?s2 (filter (is_mesh s0) objs) = get_bounding_box s0 (filter (is_mesh s0) objs)"
    using d by (intro get_bounding_box_cong) auto
  show ?thesis
    by (simp add: anchor_location_def Let_def f b provisional_anchor_location)
qed

lemma reparent_all_matrix: "obj_matrix_world (reparent_all e objs s) = obj_matrix_world s"
proof -
  have l: "obj_matrix_world (snd (fold (reparent_step e objs) xs st)) = obj_matrix_world (snd st)" for xs st
    by (induction xs arbitrary: st) (simp_all add: reparent_step_matrix)
  have a: "obj_matrix_world (reparent_anchor e par s1) = obj_matrix_world s1" for par s1
    by (simp add: reparent_anchor_def Let_def set_matrix_world_def set_parent_def fun_eq_iff
        split: option.splits)
  show ?thesis
    using l[of objs "(None, s)"]
    by (cases "fold (reparent_step e objs) objs (None, s)") (simp add: reparent_all_def a)
qed

lemma select_only_fields:
  "data_objects (select_only e s) = data_objects s"
  "obj_parent (select_only e s) = obj_parent s"
  "obj_matrix_world (select_only e s) = obj_matrix_world s"
  "obj_data (select_only e s) = obj_data s"
  "obj_select (select_only e s) = (\<lambda>ob. ob = e)"
  "active_object (select_only e s) = Some e"
  by (auto simp: select_only_def select_set_def select_all_DESELECT_def fun_eq_iff)

lemma place_anchor_result:
  assumes "e \<notin> set objs"
  shows "place_anchor self e objs s0 =
     (case anchor_target self objs s0 of
        Inl err \<Rightarrow> Inl err
      | Inr loc \<Rightarrow>
          Inr (set_display self e (write_location loc e (new_empty e s0))))"
proof (cases "mean_location s0 objs")
  case (Inl err)
  have "mean_location (new_empty e s0) objs = mean_location s0 objs"
    using assms(1) by (intro mean_location_cong) (auto simp: new_empty_fields)
  with Inl show ?thesis
    by (simp add: place_anchor_def provisional_anchor_def anchor_target_def)
next
  case (Inr m)
  have w: "write_location loc e (write_location m e (new_empty e s0)) = write_location loc e (new_empty e s0)" for loc
    by (simp add: write_location_def set_matrix_world_def apply_location_twice)
  show ?thesis
    unfolding place_anchor_def provisional_anchor_result[OF assms Inr] anchor_target_def
    by (simp add: Inr anchor_location_result[OF assms] w split: sum.splits prod.splits)
qed

lemma anchor_target_Inr:
  "objs \<noteq> [] \<Longrightarrow> \<exists>loc. anchor_target self objs s0 = Inr loc"
  using mean_location_Inr[of objs s0] get_bounding_box_meshes[of s0 objs]
  by (auto simp: anchor_target_def)

lemma execute_result:
  assumes "e \<notin> set objs" and "anchor_target self objs s0 = Inr loc"
  shows "ParentToEmpty_execute self e objs s0 =
     Inr (select_only e (reparent_all e objs
            (set_display self e (write_location loc e (new_empty e s0)))))"
  by (simp add: ParentToEmpty_execute_def place_anchor_result[OF assms(1)] assms(2))

lemma execute_anchor_matrix:
  assumes "e \<notin> set objs" and "anchor_target self objs s0 = Inr loc"
    and "ParentToEmpty_execute self e objs s0 = Inr s'"
  shows "obj_matrix_world s' = (obj_matrix_world s0)(e := apply_location_to_matrix loc identity_matrix)"
  using assms(3) unfolding execute_result[OF assms(1,2)]
  by (auto simp: select_only_fields reparent_all_matrix set_display_fields write_location_fields
      new_empty_fields)

subsection \<open>The host keeps the graph well-formed\<close>














subsection \<open>ParentToEmpty: parents after the operator\<close>



lemma selection_fresh:
  "e \<notin> set (data_objects s0) \<Longrightarrow> set objs = set (selected_objects s0) \<Longrightarrow> e \<notin> set objs"
  by (auto simp: selected_objects_def)





lemma execute_Inr:
  "objs \<noteq> [] \<Longrightarrow> e \<notin> set objs \<Longrightarrow> \<exists>s'. ParentToEmpty_execute self e objs s0 = Inr s'"
  using anchor_target_Inr[of objs self s0] execute_result[of e objs self s0] by auto






subsection \<open>ParentToEmpty: the claims on the anchor's position\<close>

lemma fadd_zero: "fadd a (Fin 0) = a"
  by (cases a) simp_all

lemma fsub_zero: "fsub a (Fin 0) = a"
  by (cases a) (simp_all add: fsub_def)

lemma place_location_axes:
  "place_location p center bsize =
     (case p of
        TOP \<Rightarrow> Vector (vx center) (vy center) (fadd (vz center) (fdivn (vz bsize) 2))
      | CENTER \<Rightarrow> center
      | BOTTOM \<Rightarrow> Vector (vx center) (vy center) (fsub (vz center) (fdivn (vz bsize) 2)))"
  by (cases p) (simp_all add: place_location_def vadd_def vsub_def fadd_zero fsub_zero)

text \<open>
  Claim C3. When the selection has a mesh, the anchor ends at the placement chosen by the
  caller on the bounding box of the selected meshes: TOP is the center raised by half the
  extent along z, CENTER the center, BOTTOM the center lowered by half the extent along z.
  On the box with center (0,0,1) and extent (2,2,2) these are (0,0,2), (0,0,1) and
  (0,0,0): the witness.
\<close>

theorem C3_placement_policy:
  "e \<notin> set (data_objects s0) \<and> set objs = set (selected_objects s0) \<and>
   filter (is_mesh s0) objs \<noteq> [] \<longrightarrow>
     (\<exists>center bsize s'.
        get_bounding_box s0 (filter (is_mesh s0) objs) = Inr (center, bsize) \<and>
        ParentToEmpty_execute self e objs s0 = Inr s' \<and>
        translation (obj_matrix_world s' e) =
          (case self_location self of
             TOP \<Rightarrow> Vector (vx center) (vy center) (fadd (vz center) (fdivn (vz bsize) 2))
           | CENTER \<Rightarrow> center
           | BOTTOM \<Rightarrow> Vector (vx center) (vy center) (fsub (vz center) (fdivn (vz bsize) 2))))"
proof
  assume a: "e \<notin> set (data_objects s0) \<and> set objs = set (selected_objects s0) \<and>
   filter (is_mesh s0) objs \<noteq> []"
  then have e: "e \<notin> set objs" using selection_fresh[of e s0 objs] by blast
  from a have ne: "objs \<noteq> []" by auto
  obtain center bsize where b: "get_bounding_box s0 (filter (is_mesh s0) objs) = Inr (center, bsize)"
    using get_bounding_box_meshes by blast
  obtain m where m: "mean_location s0 objs = Inr m" using mean_location_Inr[OF ne] by blast
  have t: "anchor_target self objs s0 = Inr (place_location (self_location self) center bsize)"
    using a by (simp add: anchor_target_def m b)
  obtain s' where x: "ParentToEmpty_execute self e objs s0 = Inr s'"
    using execute_Inr[OF ne e] by blast
  have "translation (obj_matrix_world s' e) = place_location (self_location self) center bsize"
    by (simp add: execute_anchor_matrix[OF e t x] translation_apply_location)
  with b x show "\<exists>center bsize s'.
        get_bounding_box s0 (filter (is_mesh s0) objs) = Inr (center, bsize) \<and>
        ParentToEmpty_execute self e objs s0 = Inr s' \<and>
        translation (obj_matrix_world s' e) =
          (case self_location self of
             TOP \<Rightarrow> Vector (vx center) (vy center) (fadd (vz center) (fdivn (vz bsize) 2))
           | CENTER \<Rightarrow> center
           | BOTTOM \<Rightarrow> Vector (vx center) (vy center) (fsub (vz center) (fdivn (vz bsize) 2)))"
    unfolding place_location_axes by blast
qed

lemma two_mesh_selected: "selected_objects two_mesh_scene = [1, 2]"
  by (simp add: selected_objects_def two_mesh_scene_def empty_scene_def)

lemma two_mesh_meshes: "filter (is_mesh two_mesh_scene) [1, 2] = [1, 2]"
  by (simp add: is_mesh_def two_mesh_scene_def empty_scene_def)

theorem C3_placement_policy_witness:
  "3 \<notin> set (data_objects two_mesh_scene) \<and> set [1, 2] = set (selected_objects two_mesh_scene) \<and>
   filter (is_mesh two_mesh_scene) [1, 2] = [1, 2] \<and>
   get_bounding_box two_mesh_scene [1, 2] =
     Inr (Vector (Fin 0) (Fin 0) (Fin 1), Vector (Fin 2) (Fin 2) (Fin 2)) \<and>
   (\<exists>s'. ParentToEmpty_execute (default_props\<lparr>self_location := TOP\<rparr>) 3 [1, 2] two_mesh_scene = Inr s' \<and>
         translation (obj_matrix_world s' 3) = Vector (Fin 0) (Fin 0) (Fin 2)) \<and>
   (\<exists>s'. ParentToEmpty_execute (default_props\<lparr>self_location := CENTER\<rparr>) 3 [1, 2] two_mesh_scene = Inr s' \<and>
         translation (obj_matrix_world s' 3) = Vector (Fin 0) (Fin 0) (Fin 1)) \<and>
   (\<exists>s'. ParentToEmpty_execute (default_props\<lparr>self_location := BOTTOM\<rparr>) 3 [1, 2] two_mesh_scene = Inr s' \<and>
         translation (obj_matrix_world s' 3) = Vector (Fin 0) (Fin 0) (Fin 0))"
proof -
  have f: "3 \<notin> set (data_objects two_mesh_scene)" by (simp add: two_mesh_scene_def empty_scene_def)
  note C = C3_placement_policy[of 3 two_mesh_scene "[1, 2]"]
  from C[of "default_props\<lparr>self_location := TOP\<rparr>"] f two_mesh_selected two_mesh_meshes two_mesh_box
  have 1: "\<exists>s'. ParentToEmpty_execute (default_props\<lparr>self_location := TOP\<rparr>) 3 [1, 2] two_mesh_scene = Inr s' \<and>
         translation (obj_matrix_world s' 3) = Vector (Fin 0) (Fin 0) (Fin 2)"
    by (auto simp: default_props_def)
  from C[of "default_props\<lparr>self_location := CENTER\<rparr>"] f two_mesh_selected two_mesh_meshes two_mesh_box
  have 2: "\<exists>s'. ParentToEmpty_execute (default_props\<lparr>self_location := CENTER\<rparr>) 3 [1, 2] two_mesh_scene = Inr s' \<and>
         translation (obj_matrix_world s' 3) = Vector (Fin 0) (Fin 0) (Fin 1)"
    by (auto simp: default_props_def)
  from C[of "default_props\<lparr>self_location := BOTTOM\<rparr>"] f two_mesh_selected two_mesh_meshes two_mesh_box
  have 3: "\<exists>s'. ParentToEmpty_execute (default_props\<lparr>self_location := BOTTOM\<rparr>) 3 [1, 2] two_mesh_scene = Inr s' \<and>
         translation (obj_matrix_world s' 3) = Vector (Fin 0) (Fin 0) (Fin 0)"
    by (auto simp: default_props_def fsub_def)
  from f two_mesh_selected two_mesh_meshes two_mesh_box 1 2 3 show ?thesis by simp
qed


lemma flat_selected: "selected_objects flat_scene = [1, 2]"
  by (simp add: selected_objects_def flat_scene_def empty_scene_def)

lemma flat_translations:
  "map (\<lambda>obj. translation (obj_matrix_world flat_scene obj)) [1, 2] =
     map fin_vector [(0, 0, 0), (2, 0, 0)]"
  by (simp add: flat_scene_def empty_scene_def translation_matrix_def identity_matrix_def fin_vector_def)

lemma flat_no_mesh: "filter (is_mesh flat_scene) [1, 2] = []"
  by (simp add: is_mesh_def flat_scene_def empty_scene_def)

lemma flat_fresh: "3 \<notin> set (data_objects flat_scene)"
  by (simp add: flat_scene_def empty_scene_def)


text \<open>
  Claim C5. On a non-empty selection without a mesh the anchor ends at the mean of the
  translations computed first: lines 116-128 return the location read back from the
  anchor, and no bounding box enters it.
\<close>

theorem C5_mean_retained_without_meshes:
  "objs \<noteq> [] \<and> e \<notin> set (data_objects s0) \<and> set objs = set (selected_objects s0) \<and>
   filter (is_mesh s0) objs = [] \<longrightarrow>
     (\<exists>m s'. mean_location s0 objs = Inr m \<and>
        ParentToEmpty_execute self e objs s0 = Inr s' \<and>
        translation (obj_matrix_world s' e) = m \<and>
        obj_matrix_world s' e = apply_location_to_matrix m identity_matrix \<and>
        (\<forall>s. filter (is_mesh s) objs = [] \<longrightarrow>
           anchor_location self e objs s = Inr (obj_location s e)))"
proof
  assume a: "objs \<noteq> [] \<and> e \<notin> set (data_objects s0) \<and> set objs = set (selected_objects s0) \<and>
   filter (is_mesh s0) objs = []"
  then have e: "e \<notin> set objs" using selection_fresh[of e s0 objs] by blast
  from a have ne: "objs \<noteq> []" by simp
  obtain m where m: "mean_location s0 objs = Inr m" using mean_location_Inr[OF ne] by blast
  have t: "anchor_target self objs s0 = Inr m" using a by (simp add: anchor_target_def m)
  obtain s' where x: "ParentToEmpty_execute self e objs s0 = Inr s'"
    using execute_Inr[OF ne e] by blast
  have "obj_matrix_world s' e = apply_location_to_matrix m identity_matrix"
    by (simp add: execute_anchor_matrix[OF e t x])
  moreover have "\<forall>s. filter (is_mesh s) objs = [] \<longrightarrow>
           anchor_location self e objs s = Inr (obj_location s e)"
    by (simp add: anchor_location_def Let_def)
  ultimately show "\<exists>m s'. mean_location s0 objs = Inr m \<and>
        ParentToEmpty_execute self e objs s0 = Inr s' \<and>
        translation (obj_matrix_world s' e) = m \<and>
        obj_matrix_world s' e = apply_location_to_matrix m identity_matrix \<and>
        (\<forall>s. filter (is_mesh s) objs = [] \<longrightarrow>
           anchor_location self e objs s = Inr (obj_location s e))"
    using m x by (auto simp: translation_apply_location)
qed

theorem C5_mean_retained_without_meshes_witness:
  "3 \<notin> set (data_objects flat_scene) \<and> set [1, 2] = set (selected_objects flat_scene) \<and>
   filter (is_mesh flat_scene) [1, 2] = [] \<and>
   mean_location flat_scene [1, 2] = Inr (Vector (Fin 1) (Fin 0) (Fin 0)) \<and>
   (\<exists>s'. ParentToEmpty_execute default_props 3 [1, 2] flat_scene = Inr s' \<and>
      translation (obj_matrix_world s' 3) = Vector (Fin 1) (Fin 0) (Fin 0))"
proof -
  have m: "mean_location flat_scene [1, 2] = Inr (Vector (Fin 1) (Fin 0) (Fin 0))"
    using mean_location_fin[OF flat_translations] by (simp add: fin_vector_def)
  from C5_mean_retained_without_meshes[of "[1, 2]" 3 flat_scene default_props]
    flat_fresh flat_selected flat_no_mesh m
  have "\<exists>s'. ParentToEmpty_execute default_props 3 [1, 2] flat_scene = Inr s' \<and>
      translation (obj_matrix_world s' 3) = Vector (Fin 1) (Fin 0) (Fin 0)"
    by auto
  with flat_fresh flat_selected flat_no_mesh m show ?thesis by simp
qed


subsection \<open>ParentToEmpty: the anchor's own parent\<close>









text \<open>
  A selected node below an unselected node below a selected node: the first external
  parent (node 2) is not selected, yet it is a descendant of the selected node 1. The
  host refuses it as the anchor's parent, and the anchor stays without parent.
\<close>

lemma split_target: "anchor_target default_props [1, 3] split_scene = Inr (fin_vector (0, 0, 0))"
proof -
  have "map (\<lambda>obj. translation (obj_matrix_world split_scene obj)) [1, 3] =
        map fin_vector [(0, 0, 0), (0, 0, 0)]"
    by (simp add: split_scene_def chain_scene_def empty_scene_def identity_matrix_def fin_vector_def)
  from mean_location_fin[OF this]
  have "mean_location split_scene [1, 3] = Inr (fin_vector (0, 0, 0))" by simp
  moreover have "filter (is_mesh split_scene) [1, 3] = []"
    by (simp add: is_mesh_def split_scene_def chain_scene_def empty_scene_def)
  ultimately show ?thesis by (simp add: anchor_target_def)
qed

lemma split_refused:
  "external_parents [1, 3] split_scene [1, 3] = [2] \<and>
   (\<exists>s'. ParentToEmpty_execute default_props 5 [1, 3] split_scene = Inr s' \<and>
      obj_parent s' 1 = Some 5 \<and> obj_parent s' 2 = Some 1 \<and> obj_parent s' 3 = Some 5 \<and>
      obj_parent s' 5 = None)"
proof -
  have "external_parents [1, 3] split_scene [1, 3] = [2]"
    by (simp add: external_parents_def top_level_def List.map_filter_def split_scene_def
        chain_scene_def empty_scene_def)
  moreover have "\<exists>s'. ParentToEmpty_execute default_props 5 [1, 3] split_scene = Inr s' \<and>
      obj_parent s' 1 = Some 5 \<and> obj_parent s' 2 = Some 1 \<and> obj_parent s' 3 = Some 5 \<and>
      obj_parent s' 5 = None"
  proof -
    let ?s' = "select_only 5 (reparent_all 5 [1, 3]
            (set_display default_props 5 (write_location (fin_vector (0, 0, 0)) 5 (new_empty 5 split_scene))))"
    have x: "ParentToEmpty_execute default_props 5 [1, 3] split_scene = Inr ?s'"
      by (rule execute_result[OF _ split_target]) simp
    have "obj_parent ?s' 1 = Some 5 \<and> obj_parent ?s' 2 = Some 1 \<and> obj_parent ?s' 3 = Some 5 \<and>
      obj_parent ?s' 5 = None"
      by (simp add: select_only_fields reparent_all_def reparent_step_def reparent_anchor_def
        set_parent_def set_matrix_world_def parent_loop_check_def Let_def
        set_display_def write_location_def new_empty_def objects_new_def
        split_scene_def chain_scene_def empty_scene_def)
    with x show ?thesis by blast
  qed
  ultimately show ?thesis by simp
qed


subsection \<open>The precondition of a non-empty selection\<close>

lemma execute_no_selection: "ParentToEmpty_execute self e [] s = Inl ZeroDivisionError"
  by (simp add: ParentToEmpty_execute_def place_anchor_def provisional_anchor_def Let_def
      mean_location_empty)

lemma execute_returns:
  assumes "objs \<noteq> []"
  shows "\<exists>s'. ParentToEmpty_execute self e objs s = Inr s'"
proof -
  obtain m where m: "mean_location (new_empty e s) objs = Inr m"
    using mean_location_Inr[OF assms] by blast
  let ?s2 = "write_location m e (new_empty e s)"
  obtain center bsize where b: "get_bounding_box ?s2 (filter (is_mesh ?s2) objs) = Inr (center, bsize)"
    using get_bounding_box_meshes by blast
  have "\<exists>loc. anchor_location self e objs ?s2 = Inr loc"
    by (simp add: anchor_location_def Let_def b)
  then show ?thesis
    by (auto simp: ParentToEmpty_execute_def place_anchor_def provisional_anchor_def Let_def m)
qed

lemma DeleteRecursive_no_selection:
  "selected_objects s = [] \<Longrightarrow> DeleteRecursive_execute s = s"
  by (simp add: DeleteRecursive_execute_def collect_recursive_def)

text \<open>
  Claim C9 says that each of the three operators is disabled on an empty selection.
  \<^verbatim>\<open>DeleteRecursive\<close> defines no \<^verbatim>\<open>poll\<close>: on the empty scene it is offered,
  and it runs without effect.
\<close>

theorem C9_poll_counterexample:
  "selected_objects empty_scene = [] \<and> poll DeleteRecursive empty_scene \<and>
   DeleteRecursive_execute empty_scene = empty_scene"
  by (simp add: selected_objects_def empty_scene_def DeleteRecursive_execute_def
      collect_recursive_def)

text \<open>
  Claim C9, amended. \<^verbatim>\<open>ParentToEmpty\<close> and \<^verbatim>\<open>SelectDescendants\<close> are offered
  exactly when the selection is not empty; \<^verbatim>\<open>DeleteRecursive\<close> is always offered,
  and on an empty selection it leaves the scene as it is. \<^verbatim>\<open>ParentToEmpty.execute\<close>
  has no check of its own (on no objects the division raises), and wherever its
  \<^verbatim>\<open>poll\<close> holds it divides by a positive count and returns.
\<close>

theorem C9_poll_guards:
  "(poll ParentToEmpty s \<longleftrightarrow> selected_objects s \<noteq> []) \<and>
   (poll SelectDescendants s \<longleftrightarrow> selected_objects s \<noteq> []) \<and>
   poll DeleteRecursive s \<and>
   (selected_objects s = [] \<longrightarrow> DeleteRecursive_execute s = s) \<and>
   (poll ParentToEmpty s \<and> set objs = set (selected_objects s) \<longrightarrow>
      (\<exists>s'. ParentToEmpty_execute self e objs s = Inr s')) \<and>
   ParentToEmpty_execute self e [] s = Inl ZeroDivisionError"
proof (intro conjI impI)
  assume "poll ParentToEmpty s \<and> set objs = set (selected_objects s)"
  then have "objs \<noteq> []" by auto
  then show "\<exists>s'. ParentToEmpty_execute self e objs s = Inr s'" by (rule execute_returns)
qed (simp_all add: DeleteRecursive_no_selection execute_no_selection)

theorem C9_poll_guards_witness:
  "poll ParentToEmpty flat_scene \<and> poll SelectDescendants flat_scene \<and>
   set [1, 2] = set (selected_objects flat_scene) \<and>
   (\<exists>s'. ParentToEmpty_execute default_props 3 [1, 2] flat_scene = Inr s') \<and>
   selected_objects empty_scene = [] \<and>
   \<not> poll ParentToEmpty empty_scene \<and> \<not> poll SelectDescendants empty_scene \<and>
   poll DeleteRecursive empty_scene \<and>
   ParentToEmpty_execute default_props 3 [] empty_scene = Inl ZeroDivisionError"
proof -
  have e: "selected_objects empty_scene = []" by (simp add: selected_objects_def empty_scene_def)
  from C9_poll_guards[of flat_scene "[1, 2]" default_props 3]
    C9_poll_guards[of empty_scene "[]" default_props 3] flat_selected e
  show ?thesis by simp
qed

subsection \<open>Meshes without vertices\<close>

lemma no_vertices_positions:
  "\<forall>obj\<in>set objs. obj_data s obj = Mesh [] \<Longrightarrow> world_positions s objs = []"
  by (induction objs) (simp_all add: world_positions_def)

lemma no_vertices_box:
  assumes "\<forall>obj\<in>set objs. obj_data s obj = Mesh []"
  shows "get_bounding_box s objs = Inr (Vector NaN NaN NaN, Vector NInf NInf NInf)"
proof -
  have "\<not> list_ex (\<lambda>obj. obj_data s obj = NoMesh) objs"
    using assms by (auto simp: list_ex_iff)
  from get_bounding_box_box[OF this] show ?thesis
    by (simp add: no_vertices_positions[OF assms] box_min_def box_max_def run_min_def run_max_def
        vadd_def vsub_def vdivn_def fsub_def)
qed

lemma place_location_NaN:
  "place_location p (Vector NaN NaN NaN) (Vector NInf NInf NInf) = Vector NaN NaN NaN"
  by (cases p) (simp_all add: place_location_def vadd_def vsub_def fsub_def)

text \<open>
  Claim C10. On mesh nodes that all have no vertex the reducer leaves min at plus infinity
  and max at minus infinity on every axis, and returns a center that is not a number and
  an extent of minus infinity. The test on the number of meshes in \<^verbatim>\<open>ParentToEmpty\<close>
  does not exclude this: a selection whose meshes have no vertex puts the anchor at a
  position that is not a number.
\<close>

theorem C10_degenerate_bounding_box:
  "((\<forall>obj\<in>set objs. obj_data s obj = Mesh []) \<longrightarrow>
      box_min (world_positions s objs) = Vector PInf PInf PInf \<and>
      box_max (world_positions s objs) = Vector NInf NInf NInf \<and>
      get_bounding_box s objs = Inr (Vector NaN NaN NaN, Vector NInf NInf NInf)) \<and>
   (e \<notin> set (data_objects s) \<and> set objs = set (selected_objects s) \<and>
    filter (is_mesh s) objs \<noteq> [] \<and> (\<forall>obj\<in>set objs. is_mesh s obj \<longrightarrow> obj_data s obj = Mesh []) \<longrightarrow>
      (\<exists>s'. ParentToEmpty_execute self e objs s = Inr s' \<and>
         translation (obj_matrix_world s' e) = Vector NaN NaN NaN))"
proof (intro conjI impI)
  assume a: "\<forall>obj\<in>set objs. obj_data s obj = Mesh []"
  show "box_min (world_positions s objs) = Vector PInf PInf PInf"
    by (simp add: no_vertices_positions[OF a] box_min_def run_min_def)
  show "box_max (world_positions s objs) = Vector NInf NInf NInf"
    by (simp add: no_vertices_positions[OF a] box_max_def run_max_def)
  show "get_bounding_box s objs = Inr (Vector NaN NaN NaN, Vector NInf NInf NInf)"
    by (rule no_vertices_box[OF a])
next
  assume a: "e \<notin> set (data_objects s) \<and> set objs = set (selected_objects s) \<and>
    filter (is_mesh s) objs \<noteq> [] \<and> (\<forall>obj\<in>set objs. is_mesh s obj \<longrightarrow> obj_data s obj = Mesh [])"
  then have e: "e \<notin> set objs" using selection_fresh[of e s objs] by blast
  from a have ne: "objs \<noteq> []" by auto
  from a have "\<forall>obj\<in>set (filter (is_mesh s) objs). obj_data s obj = Mesh []" by simp
  from no_vertices_box[OF this]
  have b: "get_bounding_box s (filter (is_mesh s) objs) = Inr (Vector NaN NaN NaN, Vector NInf NInf NInf)" .
  obtain m where m: "mean_location s objs = Inr m" using mean_location_Inr[OF ne] by blast
  have t: "anchor_target self objs s = Inr (Vector NaN NaN NaN)"
    using a by (simp add: anchor_target_def m b place_location_NaN)
  obtain s' where x: "ParentToEmpty_execute self e objs s = Inr s'"
    using execute_Inr[OF ne e] by blast
  have "translation (obj_matrix_world s' e) = Vector NaN NaN NaN"
    by (simp add: execute_anchor_matrix[OF e t x] translation_apply_location)
  with x show "\<exists>s'. ParentToEmpty_execute self e objs s = Inr s' \<and>
         translation (obj_matrix_world s' e) = Vector NaN NaN NaN"
    by blast
qed

theorem C10_degenerate_bounding_box_witness:
  "[1 :: nat] \<noteq> [] \<and> obj_data bare_mesh_scene 1 = Mesh [] \<and>
   2 \<notin> set (data_objects bare_mesh_scene) \<and> set [1] = set (selected_objects bare_mesh_scene) \<and>
   filter (is_mesh bare_mesh_scene) [1] = [1] \<and>
   get_bounding_box bare_mesh_scene [1] = Inr (Vector NaN NaN NaN, Vector NInf NInf NInf) \<and>
   (\<exists>s'. ParentToEmpty_execute default_props 2 [1] bare_mesh_scene = Inr s' \<and>
      translation (obj_matrix_world s' 2) = Vector NaN NaN NaN)"
proof -
  have d: "obj_data bare_mesh_scene 1 = Mesh []" by (simp add: bare_mesh_scene_def empty_scene_def)
  have f: "2 \<notin> set (data_objects bare_mesh_scene)" by (simp add: bare_mesh_scene_def empty_scene_def)
  have s: "selected_objects bare_mesh_scene = [1]"
    by (simp add: selected_objects_def bare_mesh_scene_def empty_scene_def)
  have m: "filter (is_mesh bare_mesh_scene) [1] = [1]"
    by (simp add: is_mesh_def bare_mesh_scene_def empty_scene_def)
  from C10_degenerate_bounding_box[of "[1]" bare_mesh_scene 2 default_props] d f s m
  show ?thesis by simp
qed

end
